theory Spec2Isabelle
  imports Main
begin

section \<open>The layer walker of fanal: \<open>walker/tar.go\<close>\<close>

subsection \<open>Errors\<close>

text \<open>
  Go errors are values. \<open>Err msg\<close> is a plain error (\<open>errors.New\<close>, or an error of the
  operating system or of the tar decoder); \<open>Wrap msg e\<close> is
  \<open>xerrors.Errorf("msg: %w", e)\<close>. \<open>io.EOF\<close> is no element of this type: the end of a
  stream is the end of the list that models it.
\<close>

datatype error = Err string | Wrap string error

type_synonym bytes = "char list"

subsection \<open>The functions of \<open>strings\<close> and \<open>path/filepath\<close> that the walker calls\<close>

text \<open>
  These are functions of the Go standard library (Unix build: the separator is \<open>/\<close> and
  there are no volume names). A Go string is a byte sequence, as a HOL \<open>string\<close> is.
  \<open>Clean\<close> works on the elements of a path, by the four rules of its documentation; \<open>Rel\<close>
  works on the two cleaned paths, as the library does, and returns what the library
  returns.
\<close>

definition HasPrefix :: "string \<Rightarrow> string \<Rightarrow> bool" where
  \<comment> \<open>\<open>len(s) >= len(prefix) && s[:len(prefix)] == prefix\<close>\<close>
  "HasPrefix s pre = (length pre \<le> length s \<and> take (length pre) s = pre)"

definition TrimPrefix :: "string \<Rightarrow> string \<Rightarrow> string" where
  "TrimPrefix s pre = (if HasPrefix s pre then drop (length pre) s else s)"

definition TrimLeft :: "string \<Rightarrow> string \<Rightarrow> string" where
  \<comment> \<open>removes every leading byte that occurs in the cutset\<close>
  "TrimLeft s cutset = dropWhile (\<lambda>c. c \<in> set cutset) s"

fun joinSep :: "string list \<Rightarrow> string" where
  \<comment> \<open>\<open>strings.Join(elems, "/")\<close>\<close>
  "joinSep [] = []"
| "joinSep [e] = e"
| "joinSep (e # es) = e @ CHR ''/'' # joinSep es"

fun splitSep :: "string \<Rightarrow> string list" where
  \<comment> \<open>the elements of a path: the pieces between separators, empty pieces included\<close>
  "splitSep [] = [[]]"
| "splitSep (c # cs) =
     (if c = CHR ''/'' then [] # splitSep cs
      else (case splitSep cs of [] \<Rightarrow> [[c]] | e # es \<Rightarrow> (c # e) # es))"

fun clean_elems :: "bool \<Rightarrow> string list \<Rightarrow> string list \<Rightarrow> string list" where
  \<comment> \<open>The loop of \<open>filepath.Clean\<close>, one path element at a time. \<open>out\<close> is the output so
      far, last element first. An empty element and \<open>.\<close> are dropped; \<open>..\<close> removes the
      element before it when there is one that is not itself \<open>..\<close>, is kept at the
      start of a path that is not rooted, and is dropped at the start of a rooted one.\<close>
  "clean_elems rooted out [] = out"
| "clean_elems rooted out (e # es) =
     (if e = [] \<or> e = ''.'' then clean_elems rooted out es
      else if e = ''..'' then
        (if out \<noteq> [] \<and> hd out \<noteq> ''..'' then clean_elems rooted (tl out) es
         else if \<not> rooted then clean_elems rooted (e # out) es
         else clean_elems rooted out es)
      else clean_elems rooted (e # out) es)"

definition Clean :: "string \<Rightarrow> string" where
  "Clean path =
     (if path = [] then ''.''
      else let rooted = (hd path = CHR ''/'');
               out = rev (clean_elems rooted [] (splitSep path))
           in if rooted then CHR ''/'' # joinSep out
              else if out = [] then ''.'' else joinSep out)"

definition Split :: "string \<Rightarrow> string \<times> string" where
  \<comment> \<open>\<open>i := last index of '/'; return path[:i+1], path[i+1:]\<close>\<close>
  "Split path =
     (let name = rev (takeWhile (\<lambda>c. c \<noteq> CHR ''/'') (rev path))
      in (take (length path - length name) path, name))"

fun Join :: "string list \<Rightarrow> string" where
  \<comment> \<open>the elements from the first non-empty one on, joined by the separator and cleaned;
      the empty string when every element is empty\<close>
  "Join [] = []"
| "Join (e # es) = (if e = [] then Join es else Clean (joinSep (e # es)))"

function rel_loop :: "string \<Rightarrow> string \<Rightarrow> string \<times> string \<times> string" where
  \<comment> \<open>The loop of \<open>filepath.Rel\<close> that skips the common leading elements. The arguments are
      \<open>base[b0:]\<close> and \<open>targ[t0:]\<close>; the result is \<open>(base[b0:bi], base[b0:], targ[t0:])\<close>
      when the loop ends.\<close>
  "rel_loop base targ =
     (if base = [] \<or> targ = [] then ([], base, targ)
      else let be = takeWhile (\<lambda>c. c \<noteq> CHR ''/'') base;
               te = takeWhile (\<lambda>c. c \<noteq> CHR ''/'') targ
           in if te \<noteq> be then (be, base, targ)
              else rel_loop (drop (Suc (length be)) base) (drop (Suc (length te)) targ))"
  by pat_completeness auto
termination
  by (relation "measure (\<lambda>(base, targ). length base)") auto

definition Rel :: "string \<Rightarrow> string \<Rightarrow> error + string" where
  \<comment> \<open>The two paths are cleaned and their common leading elements skipped. There is no
      relative path when only one of the two is rooted, or when the next element of the
      base is \<open>..\<close>, whether the loop stopped at a difference or at the end of the target.
      Otherwise the result climbs out of what is left of the base and descends into what
      is left of the target, and it is clean (for the target \<open>.\<close> it is \<open>..\<close>, not \<open>../.\<close>).\<close>
  "Rel basepath targpath =
     (let base = Clean basepath; targ = Clean targpath in
      if targ = base then Inr ''.''
      else
        let base = (if base = ''.'' then [] else base);
            baseSlashed = (base \<noteq> [] \<and> hd base = CHR ''/'');
            targSlashed = (targ \<noteq> [] \<and> hd targ = CHR ''/'');
            cannot = Err (''Rel: can't make '' @ targpath @ '' relative to '' @ basepath)
        in if baseSlashed \<noteq> targSlashed then Inl cannot
           else
             (case rel_loop base targ of (cur, brest, trest) \<Rightarrow>
                if takeWhile (\<lambda>c. c \<noteq> CHR ''/'') brest = ''..'' then Inl cannot
                else if brest \<noteq> [] then
                  Inr (Clean
                        (''..'' @ concat (replicate (length (filter (\<lambda>c. c = CHR ''/'') brest)) ''/..'')
                         @ (if trest \<noteq> [] then CHR ''/'' # trest else [])))
                else Inr trest))"

fun underSkippedDir :: "string \<Rightarrow> string list \<Rightarrow> bool" where
  "underSkippedDir filePath [] = False"
| "underSkippedDir filePath (skipDir # rest) =
     (case Rel skipDir filePath of
        Inl e \<Rightarrow> False
      | Inr rel \<Rightarrow> if \<not> HasPrefix rel ''../'' then True else underSkippedDir filePath rest)"

subsection \<open>Tar headers, entry content and the layer stream\<close>

text \<open>
  The fields of \<open>tar.Header\<close> that the walker reads. \<open>Typeflag\<close> is a byte; \<open>Size\<close> is an
  \<open>int64\<close>, which is only compared with the threshold. \<open>hdr.FileInfo()\<close> is the header
  itself, and \<open>fi.Size()\<close> its field \<open>Size\<close>.
\<close>

record Header =
  Name :: string
  Typeflag :: char
  Size :: int

definition TypeReg :: char where "TypeReg = CHR ''0''"
definition TypeLink :: char where "TypeLink = CHR ''1''"
definition TypeSymlink :: char where "TypeSymlink = CHR ''2''"
definition TypeDir :: char where "TypeDir = CHR ''5''"

text \<open>
  The \<open>io.Reader\<close> that the opener captures is the tar reader, positioned at the content
  of the current entry: \<open>pending\<close> is what is left to read, \<open>failure\<close> the error that ends
  the content in place of \<open>io.EOF\<close> (a truncated or corrupt archive), and \<open>drained\<close> counts
  how many times the content has been read to its end (\<open>io.ReadAll\<close>, \<open>io.Copy\<close>).
\<close>

record reader =
  pending :: bytes
  failure :: "error option"
  drained :: nat

text \<open>
  One result of \<open>tr.Next()\<close>: a header together with the reader of its content, or an
  error other than \<open>io.EOF\<close>. A layer is the list of these results; \<open>io.EOF\<close> is its end.
  What follows an entry whose content ends in an error is never reached.
\<close>

datatype tar_next = Next_hdr Header reader | Next_err error

subsection \<open>The opener: \<open>fileWithTarOpener\<close>\<close>

text \<open>
  The variables that the returned closure captures. \<open>fileWithTarOpener\<close> itself only
  declares them and returns the closure; nothing is read or created before the closure
  is called.
\<close>

record opener =
  fi :: Header
  r :: reader
  once :: bool
  b :: bytes
  tempFilePath :: string
  tempDirPath :: string
  err :: "error option"

definition fileWithTarOpener :: "Header \<Rightarrow> reader \<Rightarrow> opener" where
  "fileWithTarOpener info rdr =
     \<lparr>fi = info, r = rdr, once = False, b = [], tempFilePath = [], tempDirPath = [],
      err = None\<rparr>"

subsection \<open>\<open>LayerTar.Walk\<close>\<close>

definition opq :: string where "opq = ''.wh..wh..opq''"
definition wh :: string where "wh = ''.wh.''"

text \<open>
  \<open>shouldSkipDir\<close> and \<open>shouldSkipFile\<close> are methods of \<open>walker\<close>, declared in a file of the
  package that is not among the sources at hand; the walker is the pair of the two tests,
  and every theorem holds for every such pair.
\<close>

record walker =
  shouldSkipDir :: "string \<Rightarrow> bool"
  shouldSkipFile :: "string \<Rightarrow> bool"

text \<open>
  \<open>analyzeFn\<close> is the caller's function. It receives the path, the header (for
  \<open>hdr.FileInfo()\<close>) and the opener, and it reads and writes a state \<open>'s\<close> of the caller's
  world; it returns an error or none.
\<close>

type_synonym 's WalkFunc = "string \<Rightarrow> Header \<Rightarrow> opener \<Rightarrow> 's \<Rightarrow> error option \<times> 's"

text \<open>
  The local variables of \<open>Walk\<close>, the caller's state, and the record of the calls of
  \<open>analyzeFn\<close> made so far (path and header of each, in order).
\<close>

record 's walk_state =
  opqDirs :: "string list"
  whFiles :: "string list"
  skipDirs :: "string list"
  env :: 's
  calls :: "(string \<times> Header) list"

definition analyze :: "'s WalkFunc \<Rightarrow> string \<Rightarrow> Header \<Rightarrow> reader \<Rightarrow> 's walk_state
    \<Rightarrow> error option \<times> 's walk_state" where
  \<comment> \<open>lines 73 to 81: the test against the skipped directories and the call of \<open>analyzeFn\<close>\<close>
  "analyze analyzeFn filePath hdr tr st =
     (if underSkippedDir filePath (skipDirs st) then (None, st)
      else
        (case analyzeFn filePath hdr (fileWithTarOpener hdr tr) (env st) of
           (res, s') \<Rightarrow>
             (case res of
                Some e \<Rightarrow> Some (Wrap ''failed to analyze file'' e)
              | None \<Rightarrow> None,
              st\<lparr>env := s', calls := calls st @ [(filePath, hdr)]\<rparr>)))"

definition walk_entry :: "walker \<Rightarrow> 's WalkFunc \<Rightarrow> Header \<Rightarrow> reader \<Rightarrow> 's walk_state
    \<Rightarrow> error option \<times> 's walk_state" where
  \<comment> \<open>The body of the loop for one header. \<open>None\<close>: the loop goes on (\<open>continue\<close>, or the end of
      the body); \<open>Some e\<close>: \<open>Walk\<close> returns the error \<open>e\<close>.\<close>
  "walk_entry w analyzeFn hdr tr st =
     (let filePath = TrimLeft (Clean (Name hdr)) ''/'';
          (fileDir, fileName) = Split filePath
      in if opq = fileName then (None, st\<lparr>opqDirs := opqDirs st @ [fileDir]\<rparr>)
         else if HasPrefix fileName wh then
           (let name = TrimPrefix fileName wh;
                fpath = Join [fileDir, name]
            in (None, st\<lparr>whFiles := whFiles st @ [fpath]\<rparr>))
         else if Typeflag hdr = TypeDir then
           (if shouldSkipDir w filePath then (None, st\<lparr>skipDirs := skipDirs st @ [filePath]\<rparr>)
            else analyze analyzeFn filePath hdr tr st)
         else if Typeflag hdr = TypeSymlink \<or> Typeflag hdr = TypeLink \<or> Typeflag hdr = TypeReg then
           (if shouldSkipFile w filePath then (None, st)
            else analyze analyzeFn filePath hdr tr st)
         else (None, st))"

text \<open>
  The opener and \<open>tr.Next()\<close> read from the same tar reader. To reach the next header,
  \<open>tr.Next()\<close> passes over what is left of the content of the current entry, and a read
  error of the tar reader stays with it. So when the content of an entry ends in an error,
  the next \<open>tr.Next()\<close> returns that error, whether the callback has read the content or
  not, and whatever the archive holds after it.
\<close>

fun walk_loop :: "walker \<Rightarrow> 's WalkFunc \<Rightarrow> tar_next list \<Rightarrow> 's walk_state
    \<Rightarrow> error option \<times> 's walk_state" where
  "walk_loop w analyzeFn [] st = (None, st)"
| "walk_loop w analyzeFn (Next_err e # layer) st =
     (Some (Wrap ''failed to extract the archive'' e), st)"
| "walk_loop w analyzeFn (Next_hdr hdr tr # layer) st =
     (case walk_entry w analyzeFn hdr tr st of
        (Some e, st') \<Rightarrow> (Some e, st')
      | (None, st') \<Rightarrow>
          (case failure tr of
             Some e \<Rightarrow> (Some (Wrap ''failed to extract the archive'' e), st')
           | None \<Rightarrow> walk_loop w analyzeFn layer st'))"

definition walk_init :: "'s \<Rightarrow> 's walk_state" where
  \<comment> \<open>\<open>var opqDirs, whFiles, skipDirs []string\<close>, before the first header is read\<close>
  "walk_init s = \<lparr>opqDirs = [], whFiles = [], skipDirs = [], env = s, calls = []\<rparr>"

text \<open>
  \<open>Walk\<close> returns the two lists and the error, as the Go function does (a \<open>nil\<close> slice is
  the empty list); beside them, the caller's state after the walk and the calls made.
\<close>

definition Walk :: "walker \<Rightarrow> tar_next list \<Rightarrow> 's WalkFunc \<Rightarrow> 's
    \<Rightarrow> (string list \<times> string list \<times> error option) \<times> 's \<times> (string \<times> Header) list" where
  "Walk w layer analyzeFn s =
     (case walk_loop w analyzeFn layer (walk_init s) of
        (Some e, st) \<Rightarrow> (([], [], Some e), env st, calls st)
      | (None, st) \<Rightarrow> ((opqDirs st, whFiles st, None), env st, calls st))"

subsection \<open>What a header is to the walker\<close>

text \<open>
  The normalized path of an entry and its two components, as the loop body computes
  them, and the two kinds of marker.
\<close>

definition entry_path :: "Header \<Rightarrow> string" where
  "entry_path hdr = TrimLeft (Clean (Name hdr)) ''/''"

definition entry_dir :: "Header \<Rightarrow> string" where
  "entry_dir hdr = fst (Split (entry_path hdr))"

definition entry_base :: "Header \<Rightarrow> string" where
  "entry_base hdr = snd (Split (entry_path hdr))"

definition is_opq :: "Header \<Rightarrow> bool" where
  "is_opq hdr = (entry_base hdr = opq)"

definition is_wh :: "Header \<Rightarrow> bool" where
  "is_wh hdr = (entry_base hdr \<noteq> opq \<and> HasPrefix (entry_base hdr) wh)"

definition wh_path :: "Header \<Rightarrow> string" where
  "wh_path hdr = Join [entry_dir hdr, TrimPrefix (entry_base hdr) wh]"

definition is_file_or_dir :: "Header \<Rightarrow> bool" where
  \<comment> \<open>the type flags that the \<open>switch\<close> lets through\<close>
  "is_file_or_dir hdr =
     (Typeflag hdr = TypeDir \<or> Typeflag hdr = TypeSymlink \<or> Typeflag hdr = TypeLink
      \<or> Typeflag hdr = TypeReg)"

definition reaches_callback :: "walker \<Rightarrow> string list \<Rightarrow> Header \<Rightarrow> bool" where
  \<comment> \<open>the entry is no marker, its type is let through, no skip test holds for it, and
      it is not under a directory skipped so far\<close>
  "reaches_callback w skipped hdr =
     (\<not> is_opq hdr \<and> \<not> is_wh hdr \<and> is_file_or_dir hdr
      \<and> (if Typeflag hdr = TypeDir then \<not> shouldSkipDir w (entry_path hdr)
          else \<not> shouldSkipFile w (entry_path hdr))
      \<and> \<not> underSkippedDir (entry_path hdr) skipped)"

fun headers :: "tar_next list \<Rightarrow> Header list" where
  \<comment> \<open>the headers that \<open>tr.Next()\<close> yields before it fails or the stream ends\<close>
  "headers [] = []"
| "headers (Next_err e # layer) = []"
| "headers (Next_hdr hdr tr # layer) =
     hdr # (case failure tr of Some e \<Rightarrow> [] | None \<Rightarrow> headers layer)"

definition walk_rest :: "walker \<Rightarrow> 's WalkFunc \<Rightarrow> reader \<Rightarrow> tar_next list \<Rightarrow> 's walk_state
    \<Rightarrow> error option \<times> 's walk_state" where
  \<comment> \<open>the loop from the next \<open>tr.Next()\<close> on, after an entry with the content \<open>tr\<close>\<close>
  "walk_rest w analyzeFn tr layer st =
     (case failure tr of
        Some e \<Rightarrow> (Some (Wrap ''failed to extract the archive'' e), st)
      | None \<Rightarrow> walk_loop w analyzeFn layer st)"

definition walk_return :: "error option \<times> 's walk_state
    \<Rightarrow> (string list \<times> string list \<times> error option) \<times> 's \<times> (string \<times> Header) list" where
  \<comment> \<open>what \<open>Walk\<close> returns when the loop has ended this way\<close>
  "walk_return res =
     (case res of
        (Some e, st) \<Rightarrow> (([], [], Some e), env st, calls st)
      | (None, st) \<Rightarrow> ((opqDirs st, whFiles st, None), env st, calls st))"

subsection \<open>The file system and the readers, as far as the opener uses them\<close>

text \<open>
  The opener calls \<open>ioutil.TempDir\<close>, \<open>os.CreateTemp\<close>, \<open>io.Copy\<close>, \<open>io.ReadAll\<close>, \<open>os.Open\<close>
  and \<open>os.RemoveAll\<close>. The state of the operating system holds the directories, the
  files with their content, the random name parts that the next temporary names will
  draw, and the calls that the environment makes fail, each with its error.
\<close>

datatype syscall = Sys_MkdirTemp | Sys_CreateTemp | Sys_Write | Sys_Open | Sys_RemoveAll

record os_state =
  os_dirs :: "string list"
  os_files :: "(string \<times> bytes) list"
  os_random :: "string list"
  os_faults :: "(syscall \<times> error) list"

definition path_exists :: "os_state \<Rightarrow> string \<Rightarrow> bool" where
  "path_exists os p = (p \<in> set (os_dirs os) \<or> p \<in> set (map fst (os_files os)))"

definition temp_name :: "string \<Rightarrow> string \<Rightarrow> string" where
  \<comment> \<open>the pattern \<open>trivy-*\<close> in the directory \<open>dir\<close>, or in the default one when \<open>dir\<close> is empty\<close>
  "temp_name dir rnd = (if dir = [] then ''/tmp'' else dir) @ ''/trivy-'' @ rnd"

definition fresh_names :: "os_state \<Rightarrow> string \<Rightarrow> string list" where
  \<comment> \<open>the random name parts left once those whose name exists already have been tried\<close>
  "fresh_names os dir = dropWhile (\<lambda>rnd. path_exists os (temp_name dir rnd)) (os_random os)"

definition MkdirTemp :: "string \<Rightarrow> os_state \<Rightarrow> (error + string) \<times> os_state" where
  \<comment> \<open>\<open>ioutil.TempDir(dir, "trivy-*")\<close>: a new directory under a name that did not exist\<close>
  "MkdirTemp dir os =
     (case map_of (os_faults os) Sys_MkdirTemp of
        Some e \<Rightarrow> (Inl e, os)
      | None \<Rightarrow>
          (case fresh_names os dir of
             [] \<Rightarrow> (Inl (Err ''file exists''), os\<lparr>os_random := []\<rparr>)
           | rnd # rest \<Rightarrow>
               (Inr (temp_name dir rnd),
                os\<lparr>os_dirs := temp_name dir rnd # os_dirs os, os_random := rest\<rparr>)))"

definition CreateTemp :: "string \<Rightarrow> os_state \<Rightarrow> (error + string) \<times> os_state" where
  \<comment> \<open>\<open>os.CreateTemp(dir, "trivy-*")\<close>: a new empty file under a name that did not exist;
      the result is the name of the file, which stands for the open file\<close>
  "CreateTemp dir os =
     (case map_of (os_faults os) Sys_CreateTemp of
        Some e \<Rightarrow> (Inl e, os)
      | None \<Rightarrow>
          (case fresh_names os dir of
             [] \<Rightarrow> (Inl (Err ''file exists''), os\<lparr>os_random := []\<rparr>)
           | rnd # rest \<Rightarrow>
               (Inr (temp_name dir rnd),
                os\<lparr>os_files := (temp_name dir rnd, []) # os_files os, os_random := rest\<rparr>)))"

definition write_file :: "string \<Rightarrow> bytes \<Rightarrow> (string \<times> bytes) list \<Rightarrow> (string \<times> bytes) list" where
  "write_file p data fs = (p, data) # filter (\<lambda>(q, d). q \<noteq> p) fs"

definition ReadAll :: "reader \<Rightarrow> bytes \<times> error option \<times> reader" where
  \<comment> \<open>\<open>io.ReadAll(r)\<close>: everything up to the end of the content, and the error that ended it
      if it was not \<open>io.EOF\<close>\<close>
  "ReadAll rdr = (pending rdr, failure rdr, rdr\<lparr>pending := [], drained := Suc (drained rdr)\<rparr>)"

definition Copy :: "string \<Rightarrow> reader \<Rightarrow> os_state \<Rightarrow> error option \<times> reader \<times> os_state" where
  \<comment> \<open>\<open>io.Copy(f, r)\<close> into the open file \<open>f\<close>: a failing write ends the copy with its error;
      otherwise the file holds what was read, and the error is the one that ended the
      reading, if any\<close>
  "Copy f rdr os =
     (let rdr' = rdr\<lparr>pending := [], drained := Suc (drained rdr)\<rparr>
      in case (if pending rdr = [] then None else map_of (os_faults os) Sys_Write) of
           Some e \<Rightarrow> (Some e, rdr', os)
         | None \<Rightarrow> (failure rdr, rdr', os\<lparr>os_files := write_file f (pending rdr) (os_files os)\<rparr>))"

text \<open>
  What an opener returns to read from: an open file (its name, and the content read from
  its start) or a \<open>bytes.Reader\<close> behind \<open>io.NopCloser\<close>.
\<close>

datatype ReadCloser = File string bytes | NopCloser bytes

definition Open :: "string \<Rightarrow> os_state \<Rightarrow> error + ReadCloser" where
  "Open p os =
     (case map_of (os_faults os) Sys_Open of
        Some e \<Rightarrow> Inl e
      | None \<Rightarrow>
          (case map_of (os_files os) p of
             None \<Rightarrow> Inl (Err (''open '' @ p @ '': no such file or directory''))
           | Some data \<Rightarrow> Inr (File p data)))"

definition within :: "string \<Rightarrow> string \<Rightarrow> bool" where
  \<comment> \<open>\<open>q\<close> is the path \<open>p\<close> or lies below it\<close>
  "within p q = (q = p \<or> HasPrefix q (p @ ''/''))"

definition RemoveAll :: "string \<Rightarrow> os_state \<Rightarrow> error option \<times> os_state" where
  \<comment> \<open>\<open>os.RemoveAll(path)\<close>: the path and everything below it; nothing for the empty path\<close>
  "RemoveAll p os =
     (if p = [] then (None, os)
      else case map_of (os_faults os) Sys_RemoveAll of
             Some e \<Rightarrow> (Some e, os)
           | None \<Rightarrow>
               (None, os\<lparr>os_dirs := filter (\<lambda>q. \<not> within p q) (os_dirs os),
                          os_files := filter (\<lambda>(q, d). \<not> within p q) (os_files os)\<rparr>))"

subsection \<open>The closure that \<open>fileWithTarOpener\<close> returns\<close>

definition ThresholdSize :: int where
  \<comment> \<open>Modelled from the spec: the constant \<open>ThresholdSize\<close> is declared in a file of the
      package that is not among the sources at hand; the spec gives it as 200 MiB.\<close>
  "ThresholdSize = 200 * 2 ^ 20"

definition materialize :: "opener \<Rightarrow> os_state \<Rightarrow> opener \<times> os_state" where
  \<comment> \<open>the function given to \<open>once.Do\<close>\<close>
  "materialize c os =
     (if Size (fi c) \<ge> ThresholdSize then
        (case MkdirTemp [] os of
           (Inl e, os1) \<Rightarrow>
             (c\<lparr>tempDirPath := [], err := Some (Wrap ''failed to create the temp dir'' e)\<rparr>, os1)
         | (Inr d, os1) \<Rightarrow>
             (case CreateTemp d os1 of
                (Inl e, os2) \<Rightarrow>
                  (c\<lparr>tempDirPath := d, err := Some (Wrap ''failed to create the temp file'' e)\<rparr>, os2)
              | (Inr f, os2) \<Rightarrow>
                  (case Copy f (r c) os2 of
                     (Some e, rdr, os3) \<Rightarrow>
                       (c\<lparr>r := rdr, tempDirPath := d, err := Some (Wrap ''failed to copy'' e)\<rparr>, os3)
                   | (None, rdr, os3) \<Rightarrow>
                       (c\<lparr>r := rdr, tempDirPath := d, tempFilePath := f\<rparr>, os3))))
      else
        (case ReadAll (r c) of
           (data, Some e, rdr) \<Rightarrow>
             (c\<lparr>r := rdr, b := data, err := Some (Wrap ''unable to read the file'' e)\<rparr>, os)
         | (data, None, rdr) \<Rightarrow> (c\<lparr>r := rdr, b := data\<rparr>, os)))"

text \<open>The two release functions that the closure returns, by name.\<close>

datatype releaseFunc = RemoveTempDir | DropBuffer

definition opener_call :: "opener \<Rightarrow> os_state
    \<Rightarrow> (error + ReadCloser \<times> releaseFunc) \<times> opener \<times> os_state" where
  \<comment> \<open>One call of the closure. \<open>once.Do\<close> runs \<open>materialize\<close> when it has not run before.\<close>
  "opener_call c os =
     (let (c1, os1) = (if once c then (c, os)
                       else (case materialize c os of (c', os') \<Rightarrow> (c'\<lparr>once := True\<rparr>, os')))
      in case err c1 of
           Some e \<Rightarrow> (Inl (Wrap ''failed to once do'' e), c1, os1)
         | None \<Rightarrow>
             if Size (fi c1) \<ge> ThresholdSize then
               (case Open (tempFilePath c1) os1 of
                  Inl e \<Rightarrow> (Inl (Wrap ''failed to open the temp file'' e), c1, os1)
                | Inr f \<Rightarrow> (Inr (f, RemoveTempDir), c1, os1))
             else (Inr (NopCloser (b c1), DropBuffer), c1, os1))"

definition release :: "releaseFunc \<Rightarrow> opener \<Rightarrow> os_state \<Rightarrow> error option \<times> opener \<times> os_state" where
  "release rel c os =
     (case rel of
        RemoveTempDir \<Rightarrow>
          (case RemoveAll (tempDirPath c) os of
             (Some e, os1) \<Rightarrow> (Some (Wrap ''failed to remove all'' e), c, os1)
           | (None, os1) \<Rightarrow> (None, c, os1))
      | DropBuffer \<Rightarrow> (None, c\<lparr>b := []\<rparr>, os))"

fun later_calls :: "opener \<Rightarrow> os_state \<Rightarrow> (os_state \<Rightarrow> os_state) list
    \<Rightarrow> (error + ReadCloser \<times> releaseFunc) list" where
  \<comment> \<open>the results of successive calls of the closure; before each call the environment
      changes the operating system's state as it likes\<close>
  "later_calls c os [] = []"
| "later_calls c os (change # changes) =
     (case opener_call c (change os) of
        (res, c', os') \<Rightarrow> res # later_calls c' os' changes)"

subsection \<open>Example walkers, callbacks and layers\<close>

definition no_skip :: walker where
  \<comment> \<open>a walker whose two skip tests never hold\<close>
  "no_skip = \<lparr>shouldSkipDir = (\<lambda>p. False), shouldSkipFile = (\<lambda>p. False)\<rparr>"

definition small_content :: reader where
  "small_content = \<lparr>pending = ''data'', failure = None, drained = 0\<rparr>"

definition entry :: "string \<Rightarrow> char \<Rightarrow> Header" where
  "entry n t = \<lparr>Name = n, Typeflag = t, Size = 4\<rparr>"

definition accept_all :: "unit WalkFunc" where
  "accept_all p h c s = (None, s)"

definition layer_B :: "tar_next list" where
  "layer_B = [Next_hdr (entry ''var/cache/.wh..wh..opq'' TypeReg) small_content,
              Next_hdr (entry ''var/cache/pkg.db'' TypeReg) small_content]"

definition layer_A :: "tar_next list" where
  "layer_A = [Next_hdr (entry ''etc/'' TypeDir) small_content,
              Next_hdr (entry ''etc/os-release'' TypeReg) small_content,
              Next_hdr (entry ''etc/.wh.hostname'' TypeReg) small_content]"





definition big_bytes :: bytes where
  "big_bytes = replicate (nat ThresholdSize) (CHR ''x'')"

definition big_content :: reader where
  "big_content = \<lparr>pending = big_bytes, failure = None, drained = 0\<rparr>"

definition big_file :: Header where
  "big_file = \<lparr>Name = ''var/lib/image.bin'', Typeflag = TypeReg, Size = ThresholdSize\<rparr>"

definition small_file :: Header where
  "small_file = \<lparr>Name = ''etc/os-release'', Typeflag = TypeReg, Size = 4\<rparr>"

definition os_0 :: os_state where
  "os_0 = \<lparr>os_dirs = [''/tmp''], os_files = [], os_random = [''1'', ''2'', ''3''], os_faults = []\<rparr>"

definition spooled_opener :: opener where
  \<comment> \<open>the captured variables after the first call for \<open>big_file\<close> in \<open>os_0\<close>\<close>
  "spooled_opener =
     \<lparr>fi = big_file, r = \<lparr>pending = [], failure = None, drained = 1\<rparr>, once = True, b = [],
      tempFilePath = ''/tmp/trivy-1/trivy-2'', tempDirPath = ''/tmp/trivy-1'', err = None\<rparr>"

definition os_spooled :: os_state where
  "os_spooled =
     \<lparr>os_dirs = [''/tmp/trivy-1'', ''/tmp''], os_files = [(''/tmp/trivy-1/trivy-2'', big_bytes)],
      os_random = [''3''], os_faults = []\<rparr>"

definition os_released :: os_state where
  "os_released = \<lparr>os_dirs = [''/tmp''], os_files = [], os_random = [''3''], os_faults = []\<rparr>"

definition truncated :: "Header \<Rightarrow> reader \<Rightarrow> reader" where
  \<comment> \<open>the content of an entry, cut short by a read error\<close>
  "truncated hdr rdr = rdr\<lparr>failure := Some (Err ''unexpected EOF'')\<rparr>"

definition failed_opener :: opener where
  \<comment> \<open>the captured variables after the first call for \<open>small_file\<close> with truncated content\<close>
  "failed_opener =
     \<lparr>fi = small_file, r = \<lparr>pending = [], failure = Some (Err ''unexpected EOF''), drained = 1\<rparr>,
      once = True, b = ''data'', tempFilePath = [], tempDirPath = [],
      err = Some (Wrap ''unable to read the file'' (Err ''unexpected EOF''))\<rparr>"

definition buffered_opener :: opener where
  \<comment> \<open>the captured variables after the first call for \<open>small_file\<close>\<close>
  "buffered_opener =
     \<lparr>fi = small_file, r = \<lparr>pending = [], failure = None, drained = 1\<rparr>, once = True,
      b = ''data'', tempFilePath = [], tempDirPath = [], err = None\<rparr>"

definition skip_two :: walker where
  \<comment> \<open>a walker that skips the directories \<open>../vendor\<close> and \<open>node_modules\<close>\<close>
  "skip_two = \<lparr>shouldSkipDir = (\<lambda>p. p = ''../vendor'' \<or> p = ''node_modules''),
               shouldSkipFile = (\<lambda>p. False)\<rparr>"

definition layer_outside :: "tar_next list" where
  "layer_outside = [Next_hdr (entry ''../vendor/'' TypeDir) small_content,
                    Next_hdr (entry ''node_modules/'' TypeDir) small_content,
                    Next_hdr (entry ''node_modules/pkg/index.js'' TypeReg) small_content]"

definition record_path :: "string list WalkFunc" where
  \<comment> \<open>a callback that keeps the paths it is called with\<close>
  "record_path p h c seen = (None, seen @ [p])"

definition os_no_mkdir :: os_state where
  "os_no_mkdir = os_0\<lparr>os_faults := [(Sys_MkdirTemp, Err ''permission denied'')]\<rparr>"

definition os_no_create :: os_state where
  "os_no_create = os_0\<lparr>os_faults := [(Sys_CreateTemp, Err ''too many open files'')]\<rparr>"

definition os_no_write :: os_state where
  "os_no_write = os_0\<lparr>os_faults := [(Sys_Write, Err ''no space left on device'')]\<rparr>"

definition after_marker :: "string list walk_state" where
  \<comment> \<open>the local variables of the walk after the opaque marker of \<open>layer_B\<close>\<close>
  "after_marker = \<lparr>opqDirs = [''var/cache/''], whFiles = [], skipDirs = [], env = [], calls = []\<rparr>"

section \<open>Properties of the walk\<close>

lemma walk_entry_unfold:
  "walk_entry w f hdr tr st =
     (if entry_base hdr = opq then (None, st\<lparr>opqDirs := opqDirs st @ [entry_dir hdr]\<rparr>)
      else if HasPrefix (entry_base hdr) wh then (None, st\<lparr>whFiles := whFiles st @ [wh_path hdr]\<rparr>)
      else if Typeflag hdr = TypeDir then
        (if shouldSkipDir w (entry_path hdr)
         then (None, st\<lparr>skipDirs := skipDirs st @ [entry_path hdr]\<rparr>)
         else analyze f (entry_path hdr) hdr tr st)
      else if Typeflag hdr = TypeSymlink \<or> Typeflag hdr = TypeLink \<or> Typeflag hdr = TypeReg then
        (if shouldSkipFile w (entry_path hdr) then (None, st)
         else analyze f (entry_path hdr) hdr tr st)
      else (None, st))"
  unfolding walk_entry_def entry_base_def entry_dir_def wh_path_def entry_path_def Let_def case_prod_beta
  by (simp add: eq_commute[of opq])

lemma typeflags_distinct [simp]:
  "TypeSymlink \<noteq> TypeDir" "TypeLink \<noteq> TypeDir" "TypeReg \<noteq> TypeDir"
  by (simp_all add: TypeSymlink_def TypeLink_def TypeReg_def TypeDir_def)

lemma walk_entry_opq:
  "is_opq hdr \<Longrightarrow> walk_entry w f hdr tr st = (None, st\<lparr>opqDirs := opqDirs st @ [entry_dir hdr]\<rparr>)"
  by (simp add: walk_entry_unfold is_opq_def)

lemma walk_entry_wh:
  "is_wh hdr \<Longrightarrow> walk_entry w f hdr tr st = (None, st\<lparr>whFiles := whFiles st @ [wh_path hdr]\<rparr>)"
  by (simp add: walk_entry_unfold is_wh_def)

lemma walk_entry_reaches:
  "reaches_callback w (skipDirs st) hdr \<Longrightarrow>
   walk_entry w f hdr tr st =
     (case f (entry_path hdr) hdr (fileWithTarOpener hdr tr) (env st) of
        (res, s') \<Rightarrow> (map_option (Wrap ''failed to analyze file'') res,
                     st\<lparr>env := s', calls := calls st @ [(entry_path hdr, hdr)]\<rparr>))"
  by (auto simp add: walk_entry_unfold reaches_callback_def is_opq_def is_wh_def is_file_or_dir_def analyze_def
      split: prod.splits option.splits)

lemma walk_entry_skipped:
  "\<not> is_opq hdr \<Longrightarrow> \<not> is_wh hdr \<Longrightarrow> \<not> reaches_callback w (skipDirs st) hdr \<Longrightarrow>
   walk_entry w f hdr tr st =
     (None, if Typeflag hdr = TypeDir \<and> shouldSkipDir w (entry_path hdr)
            then st\<lparr>skipDirs := skipDirs st @ [entry_path hdr]\<rparr> else st)"
  by (auto simp add: walk_entry_unfold reaches_callback_def is_opq_def is_wh_def is_file_or_dir_def analyze_def
      split: prod.splits option.splits)

lemma walk_loop_append:
  "walk_loop w f (xs @ ys) st =
     (case walk_loop w f xs st of
        (Some e, st') \<Rightarrow> (Some e, st')
      | (None, st') \<Rightarrow> walk_loop w f ys st')"
proof (induction xs arbitrary: st)
  case Nil
  show ?case by simp
next
  case (Cons x xs)
  show ?case
  proof (cases x)
    case (Next_hdr hdr tr)
    then show ?thesis using Cons.IH
      by (simp split: prod.splits option.splits)
  next
    case (Next_err e)
    then show ?thesis by simp
  qed
qed

lemma walk_entry_lists:
  "walk_entry w f hdr tr st = (res, st') \<Longrightarrow>
   opqDirs st' = opqDirs st @ (if is_opq hdr then [entry_dir hdr] else []) \<and>
   whFiles st' = whFiles st @ (if is_wh hdr then [wh_path hdr] else [])"
  by (auto simp add: walk_entry_unfold is_opq_def is_wh_def analyze_def
      split: if_splits prod.splits option.splits)

lemma walk_entry_calls:
  "walk_entry w f hdr tr st = (res, st') \<Longrightarrow>
   calls st' = calls st @ (if reaches_callback w (skipDirs st) hdr then [(entry_path hdr, hdr)] else [])"
  by (auto simp add: walk_entry_unfold reaches_callback_def is_file_or_dir_def is_opq_def is_wh_def analyze_def
      split: if_splits prod.splits option.splits)

lemma walk_loop_Cons_None:
  "walk_loop w f (Next_hdr h tr # ys) st = (None, st') \<Longrightarrow>
   failure tr = None \<and> (\<exists>st1. walk_entry w f h tr st = (None, st1) \<and> walk_loop w f ys st1 = (None, st'))"
  by (auto split: prod.splits option.splits)

lemma walk_loop_lists:
  "walk_loop w f layer st = (None, st') \<Longrightarrow>
   opqDirs st' = opqDirs st @ map entry_dir (filter is_opq (headers layer)) \<and>
   whFiles st' = whFiles st @ map wh_path (filter is_wh (headers layer))"
proof (induction layer arbitrary: st)
  case Nil
  then show ?case by simp
next
  case (Cons x layer)
  show ?case
  proof (cases x)
    case (Next_err e)
    with Cons.prems show ?thesis by simp
  next
    case (Next_hdr hdr tr)
    from walk_loop_Cons_None[OF Cons.prems[unfolded Next_hdr]]
    obtain st1 where good: "failure tr = None"
      and step: "walk_entry w f hdr tr st = (None, st1)"
      and rest: "walk_loop w f layer st1 = (None, st')"
      by blast
    from Cons.IH[OF rest] walk_entry_lists[OF step] Next_hdr good show ?thesis by simp
  qed
qed

lemma walk_loop_calls:
  "walk_loop w f layer st = (res, st') \<Longrightarrow>
   \<exists>new. calls st' = calls st @ new \<and>
     (\<forall>(p, h) \<in> set new. \<not> is_opq h \<and> \<not> is_wh h \<and> p = entry_path h \<and> h \<in> set (headers layer))"
proof (induction layer arbitrary: st)
  case Nil
  then show ?case by simp
next
  case (Cons x layer)
  show ?case
  proof (cases x)
    case (Next_err e)
    with Cons.prems show ?thesis by simp
  next
    case (Next_hdr hdr tr)
    obtain r1 st1 where step: "walk_entry w f hdr tr st = (r1, st1)"
      by (cases "walk_entry w f hdr tr st")
    note c1 = walk_entry_calls[OF step]
    have stop: "st' = st1 \<Longrightarrow> ?thesis"
      using c1 Next_hdr by (auto simp add: reaches_callback_def)
    show ?thesis
    proof (cases r1)
      case (Some e)
      with Cons.prems step Next_hdr have "st' = st1" by simp
      then show ?thesis by (rule stop)
    next
      case None
      show ?thesis
      proof (cases "failure tr")
        case (Some e)
        with Cons.prems step Next_hdr None have "st' = st1" by simp
        then show ?thesis by (rule stop)
      next
        case good: None
        with Cons.prems step Next_hdr None have rest: "walk_loop w f layer st1 = (res, st')"
          by simp
        from Cons.IH[OF rest]
        obtain new where n: "calls st' = calls st1 @ new"
          "\<forall>(p, h) \<in> set new. \<not> is_opq h \<and> \<not> is_wh h \<and> p = entry_path h \<and> h \<in> set (headers layer)"
          by auto
        show ?thesis
          using n c1 Next_hdr good by (auto simp add: reaches_callback_def)
      qed
    qed
  qed
qed

lemma opq_has_wh_prefix: "HasPrefix opq wh"
  by (simp add: HasPrefix_def opq_def wh_def)

lemma Walk_calls_no_marker:
  "(p, h) \<in> set (snd (snd (Walk w layer f s))) \<Longrightarrow> \<not> is_opq h \<and> \<not> is_wh h"
proof -
  assume a: "(p, h) \<in> set (snd (snd (Walk w layer f s)))"
  obtain res st where l: "walk_loop w f layer (walk_init s) = (res, st)"
    by (cases "walk_loop w f layer (walk_init s)")
  from walk_loop_calls[OF l] obtain new where
    n: "calls st = calls (walk_init s) @ new"
       "\<forall>(p, h) \<in> set new. \<not> is_opq h \<and> \<not> is_wh h \<and> p = entry_path h \<and> h \<in> set (headers layer)"
    by blast
  have "snd (snd (Walk w layer f s)) = calls st"
    using l by (simp add: Walk_def walk_init_def split: option.splits)
  with a n show ?thesis by (auto simp add: walk_init_def)
qed

lemma Walk_success_lists:
  assumes "Walk w layer f s = ((dirs, paths, None), s', cs)"
  shows "dirs = map entry_dir (filter is_opq (headers layer))"
    and "paths = map wh_path (filter is_wh (headers layer))"
proof -
  obtain res st where l: "walk_loop w f layer (walk_init s) = (res, st)"
    by (cases "walk_loop w f layer (walk_init s)")
  with assms have r: "res = None" and d: "dirs = opqDirs st" and p: "paths = whFiles st"
    by (auto simp add: Walk_def walk_init_def split: option.splits)
  from walk_loop_lists[of w f layer "walk_init s" st] l r
  show "dirs = map entry_dir (filter is_opq (headers layer))"
    and "paths = map wh_path (filter is_wh (headers layer))"
    using d p by (simp_all add: walk_init_def)
qed

text \<open>
  Claim C1. An entry whose normalized base name is the opaque-marker name \<open>.wh..wh..opq\<close>
  has its directory component appended to \<open>opqDirs\<close> and nothing else happens for it: the
  callback is not called, \<open>whFiles\<close> and \<open>skipDirs\<close> stay as they are and neither skip test
  is consulted, although the name carries the whiteout prefix. No call of the callback
  that \<open>Walk\<close> makes is for such an entry, and a walk that returns without error returns
  the directories of the opaque markers, in stream order, and whiteout paths that come
  from the other entries only.
\<close>

theorem opaque_marker_recorded_never_delivered:
  "(is_opq hdr \<longrightarrow>
      HasPrefix (entry_base hdr) wh \<and>
      walk_entry w analyzeFn hdr tr st = (None, st\<lparr>opqDirs := opqDirs st @ [entry_dir hdr]\<rparr>))
   \<and> (\<forall>(p, h) \<in> set (snd (snd (Walk w layer analyzeFn s))). \<not> is_opq h)
   \<and> (Walk w layer analyzeFn s = ((dirs, paths, None), s', cs) \<longrightarrow>
        dirs = map entry_dir (filter is_opq (headers layer)) \<and>
        paths = map wh_path (filter (\<lambda>h. \<not> is_opq h \<and> HasPrefix (entry_base h) wh) (headers layer)))"
proof (intro conjI impI)
  assume "is_opq hdr"
  then show "HasPrefix (entry_base hdr) wh"
    by (simp add: is_opq_def opq_has_wh_prefix)
next
  assume "is_opq hdr"
  then show "walk_entry w analyzeFn hdr tr st = (None, st\<lparr>opqDirs := opqDirs st @ [entry_dir hdr]\<rparr>)"
    by (rule walk_entry_opq)
next
  show "\<forall>(p, h) \<in> set (snd (snd (Walk w layer analyzeFn s))). \<not> is_opq h"
    by (auto dest: Walk_calls_no_marker)
next
  assume a: "Walk w layer analyzeFn s = ((dirs, paths, None), s', cs)"
  show "dirs = map entry_dir (filter is_opq (headers layer))"
    by (rule Walk_success_lists(1)[OF a])
  have "is_wh = (\<lambda>h. \<not> is_opq h \<and> HasPrefix (entry_base h) wh)"
    by (simp add: is_wh_def is_opq_def fun_eq_iff)
  with Walk_success_lists(2)[OF a]
  show "paths = map wh_path (filter (\<lambda>h. \<not> is_opq h \<and> HasPrefix (entry_base h) wh) (headers layer))"
    by simp
qed

theorem opaque_marker_recorded_never_delivered_witness:
  "is_opq (entry ''var/cache/.wh..wh..opq'' TypeReg)
   \<and> walk_entry no_skip accept_all (entry ''var/cache/.wh..wh..opq'' TypeReg) small_content (walk_init ())
       = (None, (walk_init ())\<lparr>opqDirs := opqDirs (walk_init ()) @ [''var/cache/'']\<rparr>)
   \<and> Walk no_skip layer_B accept_all ()
       = (([''var/cache/''], [], None), (), [(''var/cache/pkg.db'', entry ''var/cache/pkg.db'' TypeReg)])
   \<and> map entry_dir (filter is_opq (headers layer_B)) = [''var/cache/'']"
proof -
  have h1: "is_opq (entry ''var/cache/.wh..wh..opq'' TypeReg)"
    by code_simp
  have h2: "Walk no_skip layer_B accept_all ()
       = (([''var/cache/''], [], None), (), [(''var/cache/pkg.db'', entry ''var/cache/pkg.db'' TypeReg)])"
    by code_simp
  have h3: "entry_dir (entry ''var/cache/.wh..wh..opq'' TypeReg) = ''var/cache/''"
    by code_simp
  show ?thesis
    using h1 h2 h3
      opaque_marker_recorded_never_delivered[of "entry ''var/cache/.wh..wh..opq'' TypeReg"
        no_skip accept_all small_content "walk_init ()" layer_B "()" "[''var/cache/'']" "[]" "()"
        "[(''var/cache/pkg.db'', entry ''var/cache/pkg.db'' TypeReg)]"]
    by simp
qed

text \<open>
  Claim C2. An entry whose normalized base name begins with the whiteout prefix \<open>.wh.\<close> and
  is not the opaque-marker name has the directory component, joined with the name
  without the prefix, appended to \<open>whFiles\<close>, and nothing else happens for it: the callback
  is not called. No call of the callback that \<open>Walk\<close> makes is for such an entry, and a walk
  that returns without error returns the joined paths of the whiteout entries, in stream
  order. The entry \<open>etc/.wh.hostname\<close> gives \<open>etc/hostname\<close>.
\<close>

theorem whiteout_marker_recorded_never_delivered:
  "(is_wh hdr \<longrightarrow>
      walk_entry w analyzeFn hdr tr st =
        (None, st\<lparr>whFiles := whFiles st @ [Join [entry_dir hdr, TrimPrefix (entry_base hdr) wh]]\<rparr>)
      \<and> wh @ TrimPrefix (entry_base hdr) wh = entry_base hdr)
   \<and> (\<forall>(p, h) \<in> set (snd (snd (Walk w layer analyzeFn s))). \<not> is_wh h)
   \<and> (Walk w layer analyzeFn s = ((dirs, paths, None), s', cs) \<longrightarrow>
        paths = map (\<lambda>h. Join [entry_dir h, TrimPrefix (entry_base h) wh]) (filter is_wh (headers layer)))"
proof (intro conjI impI)
  assume "is_wh hdr"
  then show "walk_entry w analyzeFn hdr tr st =
        (None, st\<lparr>whFiles := whFiles st @ [Join [entry_dir hdr, TrimPrefix (entry_base hdr) wh]]\<rparr>)"
    by (simp add: walk_entry_wh wh_path_def)
next
  assume "is_wh hdr"
  then have "HasPrefix (entry_base hdr) wh" by (simp add: is_wh_def)
  then show "wh @ TrimPrefix (entry_base hdr) wh = entry_base hdr"
    by (simp add: TrimPrefix_def HasPrefix_def) (metis append_take_drop_id)
next
  show "\<forall>(p, h) \<in> set (snd (snd (Walk w layer analyzeFn s))). \<not> is_wh h"
    by (auto dest: Walk_calls_no_marker)
next
  assume a: "Walk w layer analyzeFn s = ((dirs, paths, None), s', cs)"
  have "wh_path = (\<lambda>h. Join [entry_dir h, TrimPrefix (entry_base h) wh])"
    by (simp add: wh_path_def fun_eq_iff)
  with Walk_success_lists(2)[OF a]
  show "paths = map (\<lambda>h. Join [entry_dir h, TrimPrefix (entry_base h) wh]) (filter is_wh (headers layer))"
    by simp
qed

theorem whiteout_marker_recorded_never_delivered_witness:
  "is_wh (entry ''etc/.wh.hostname'' TypeReg)
   \<and> walk_entry no_skip accept_all (entry ''etc/.wh.hostname'' TypeReg) small_content (walk_init ())
       = (None, (walk_init ())\<lparr>whFiles := whFiles (walk_init ()) @ [''etc/hostname'']\<rparr>)
   \<and> Walk no_skip layer_A accept_all ()
       = (([], [''etc/hostname''], None), (),
          [(''etc'', entry ''etc/'' TypeDir), (''etc/os-release'', entry ''etc/os-release'' TypeReg)])
   \<and> map (\<lambda>h. Join [entry_dir h, TrimPrefix (entry_base h) wh]) (filter is_wh (headers layer_A))
       = [''etc/hostname'']"
proof -
  have h1: "is_wh (entry ''etc/.wh.hostname'' TypeReg)"
    by code_simp
  have h2: "Walk no_skip layer_A accept_all ()
       = (([], [''etc/hostname''], None), (),
          [(''etc'', entry ''etc/'' TypeDir), (''etc/os-release'', entry ''etc/os-release'' TypeReg)])"
    by code_simp
  have h3: "Join [entry_dir (entry ''etc/.wh.hostname'' TypeReg),
                  TrimPrefix (entry_base (entry ''etc/.wh.hostname'' TypeReg)) wh] = ''etc/hostname''"
    by code_simp
  show ?thesis
    using h1 h2 h3
      whiteout_marker_recorded_never_delivered[of "entry ''etc/.wh.hostname'' TypeReg"
        no_skip accept_all small_content "walk_init ()" layer_A "()" "[]" "[''etc/hostname'']" "()"
        "[(''etc'', entry ''etc/'' TypeDir), (''etc/os-release'', entry ''etc/os-release'' TypeReg)]"]
    by simp
qed



lemma walk_loop_append_None:
  "walk_loop w f (xs @ ys) st = (None, st') \<Longrightarrow>
   \<exists>st1. walk_loop w f xs st = (None, st1) \<and> walk_loop w f ys st1 = (None, st')"
  by (auto simp add: walk_loop_append split: prod.splits option.splits)

lemma walk_entry_skipDirs_noskip:
  "\<forall>p. \<not> shouldSkipDir w p \<Longrightarrow> walk_entry w f hdr tr st = (res, st') \<Longrightarrow> skipDirs st' = skipDirs st"
  by (auto simp add: walk_entry_unfold analyze_def split: if_splits prod.splits option.splits)

lemma walk_loop_skipDirs_noskip:
  "\<forall>p. \<not> shouldSkipDir w p \<Longrightarrow> walk_loop w f layer st = (res, st') \<Longrightarrow> skipDirs st' = skipDirs st"
proof (induction layer arbitrary: st)
  case Nil
  then show ?case by simp
next
  case (Cons x layer)
  show ?case
  proof (cases x)
    case (Next_err e)
    with Cons.prems show ?thesis by simp
  next
    case (Next_hdr hdr tr)
    obtain r1 st1 where step: "walk_entry w f hdr tr st = (r1, st1)"
      by (cases "walk_entry w f hdr tr st")
    note s1 = walk_entry_skipDirs_noskip[OF Cons.prems(1) step]
    show ?thesis
    proof (cases "r1 = None \<and> failure tr = None")
      case True
      with Cons.prems step Next_hdr have rest: "walk_loop w f layer st1 = (res, st')" by simp
      from Cons.IH[OF Cons.prems(1) rest] s1 show ?thesis by simp
    next
      case False
      with Cons.prems step Next_hdr have "st' = st1" by (auto split: option.splits)
      with s1 show ?thesis by simp
    qed
  qed
qed

lemma Walk_return: "Walk w layer f s = walk_return (walk_loop w f layer (walk_init s))"
  by (simp add: Walk_def walk_return_def)

lemma walk_loop_Cons:
  "walk_loop w f (Next_hdr hdr tr # layer) st =
     (case walk_entry w f hdr tr st of
        (Some e, st') \<Rightarrow> (Some e, st')
      | (None, st') \<Rightarrow> walk_rest w f tr layer st')"
  by (simp add: walk_rest_def split: prod.splits option.splits)

lemma walk_loop_front:
  "walk_loop w f front st = (None, sc) \<Longrightarrow> walk_loop w f (front @ rest) st = walk_loop w f rest sc"
  by (simp add: walk_loop_append)

lemma walk_loop_front_opq:
  assumes "is_opq m" and "walk_loop w f (pre @ Next_hdr m trm # mid) st = (None, sc)"
  shows "entry_dir m \<in> set (opqDirs sc)"
proof -
  from assms(2) obtain sa where a1: "walk_loop w f pre st = (None, sa)"
    and a2: "walk_loop w f (Next_hdr m trm # mid) sa = (None, sc)"
    using walk_loop_append_None by blast
  from walk_loop_Cons_None[OF a2] obtain sb where b1: "walk_entry w f m trm sa = (None, sb)"
    and b2: "walk_loop w f mid sb = (None, sc)" by blast
  have "opqDirs sb = opqDirs sa @ [entry_dir m]"
    using walk_entry_lists[OF b1] assms(1) by simp
  moreover have "\<exists>more. opqDirs sc = opqDirs sb @ more"
    using walk_loop_lists[OF b2] by blast
  ultimately show ?thesis by auto
qed

text \<open>
  Claim C3. When the walk has passed an opaque marker \<open>m\<close> without failing and has left the
  local variables \<open>sc\<close>, the directory of \<open>m\<close> is among the opaque directories recorded. With
  no skip configuration, every later entry \<open>hdr\<close> that is no marker and whose type is a
  directory, a regular file or a link reaches the callback, in whatever directory it lies
  (so in the directory of the marker too). For an entry that reaches the callback, \<open>Walk\<close>
  applies \<open>analyzeFn\<close> to its path, its header and a new opener, in the caller's state that
  the entries before it have left: when \<open>analyzeFn\<close> returns an error, \<open>Walk\<close> returns it
  wrapped, with the state that \<open>analyzeFn\<close> has left; otherwise the walk goes on from that
  state. When such a walk returns without error, the directory of \<open>m\<close> is among the opaque
  directories returned and \<open>analyzeFn\<close> has returned no error for \<open>hdr\<close>.
\<close>

theorem opaque_marker_does_not_suppress_later_entries:
  assumes marker: "is_opq m"
    and front: "walk_loop w analyzeFn (pre @ Next_hdr m trm # mid) (walk_init s) = (None, sc)"
  shows "entry_dir m \<in> set (opqDirs sc)
     \<and> ((\<forall>p. \<not> shouldSkipDir w p \<and> \<not> shouldSkipFile w p)
          \<and> \<not> is_opq hdr \<and> \<not> is_wh hdr \<and> is_file_or_dir hdr
        \<longrightarrow> reaches_callback w (skipDirs sc) hdr)
     \<and> (reaches_callback w (skipDirs sc) hdr \<longrightarrow>
          Walk w (pre @ Next_hdr m trm # mid @ Next_hdr hdr tr # post) analyzeFn s =
            (case analyzeFn (entry_path hdr) hdr (fileWithTarOpener hdr tr) (env sc) of
               (Some e, s1) \<Rightarrow>
                 (([], [], Some (Wrap ''failed to analyze file'' e)), s1,
                  calls sc @ [(entry_path hdr, hdr)])
             | (None, s1) \<Rightarrow>
                 walk_return
                   (walk_rest w analyzeFn tr post
                      (sc\<lparr>env := s1, calls := calls sc @ [(entry_path hdr, hdr)]\<rparr>)))
          \<and> (Walk w (pre @ Next_hdr m trm # mid @ Next_hdr hdr tr # post) analyzeFn s
                = ((dirs, paths, None), s', cs) \<longrightarrow>
              entry_dir m \<in> set dirs \<and> (entry_path hdr, hdr) \<in> set cs
              \<and> (\<exists>s1. analyzeFn (entry_path hdr) hdr (fileWithTarOpener hdr tr) (env sc) = (None, s1))))"
proof (intro conjI impI)
  show "entry_dir m \<in> set (opqDirs sc)"
    by (rule walk_loop_front_opq[OF marker front])
next
  assume a: "(\<forall>p. \<not> shouldSkipDir w p \<and> \<not> shouldSkipFile w p)
          \<and> \<not> is_opq hdr \<and> \<not> is_wh hdr \<and> is_file_or_dir hdr"
  then have "skipDirs sc = skipDirs (walk_init s)"
    using walk_loop_skipDirs_noskip[OF _ front] by blast
  then have "skipDirs sc = []" by (simp add: walk_init_def)
  with a show "reaches_callback w (skipDirs sc) hdr"
    by (simp add: reaches_callback_def)
next
  assume r: "reaches_callback w (skipDirs sc) hdr"
  have whole: "pre @ Next_hdr m trm # mid @ Next_hdr hdr tr # post
      = (pre @ Next_hdr m trm # mid) @ Next_hdr hdr tr # post" by simp
  show "Walk w (pre @ Next_hdr m trm # mid @ Next_hdr hdr tr # post) analyzeFn s =
            (case analyzeFn (entry_path hdr) hdr (fileWithTarOpener hdr tr) (env sc) of
               (Some e, s1) \<Rightarrow>
                 (([], [], Some (Wrap ''failed to analyze file'' e)), s1,
                  calls sc @ [(entry_path hdr, hdr)])
             | (None, s1) \<Rightarrow>
                 walk_return
                   (walk_rest w analyzeFn tr post
                      (sc\<lparr>env := s1, calls := calls sc @ [(entry_path hdr, hdr)]\<rparr>)))"
    unfolding Walk_return whole walk_loop_front[OF front] walk_loop_Cons walk_entry_reaches[OF r]
    by (simp add: walk_return_def split: prod.splits option.splits)
next
  assume r: "reaches_callback w (skipDirs sc) hdr"
    and ok: "Walk w (pre @ Next_hdr m trm # mid @ Next_hdr hdr tr # post) analyzeFn s
                = ((dirs, paths, None), s', cs)"
  have whole: "pre @ Next_hdr m trm # mid @ Next_hdr hdr tr # post
      = (pre @ Next_hdr m trm # mid) @ Next_hdr hdr tr # post" by simp
  obtain res s1 where cb: "analyzeFn (entry_path hdr) hdr (fileWithTarOpener hdr tr) (env sc) = (res, s1)"
    by (cases "analyzeFn (entry_path hdr) hdr (fileWithTarOpener hdr tr) (env sc)")
  let ?sd = "sc\<lparr>env := s1, calls := calls sc @ [(entry_path hdr, hdr)]\<rparr>"
  from ok have w: "walk_return (case res of Some e \<Rightarrow> (Some (Wrap ''failed to analyze file'' e), ?sd)
                                 | None \<Rightarrow> walk_rest w analyzeFn tr post ?sd)
                   = ((dirs, paths, None), s', cs)"
    unfolding Walk_return whole walk_loop_front[OF front] walk_loop_Cons walk_entry_reaches[OF r] cb
    by (simp split: option.splits)
  then have res: "res = None"
    by (cases res) (simp_all add: walk_return_def)
  obtain r2 stF where rest: "walk_rest w analyzeFn tr post ?sd = (r2, stF)"
    by (cases "walk_rest w analyzeFn tr post ?sd")
  with w res have r2: "r2 = None" and d: "dirs = opqDirs stF" and p: "paths = whFiles stF"
    and e: "s' = env stF" and c: "cs = calls stF"
    by (auto simp add: walk_return_def split: option.splits)
  from rest r2 have good: "failure tr = None" and loop: "walk_loop w analyzeFn post ?sd = (None, stF)"
    by (auto simp add: walk_rest_def split: option.splits)
  have "\<exists>more. opqDirs stF = opqDirs ?sd @ more"
    using walk_loop_lists[OF loop] by blast
  with walk_loop_front_opq[OF marker front] d
  show "entry_dir m \<in> set dirs" by auto
  have "\<exists>new. calls stF = calls ?sd @ new"
    using walk_loop_calls[OF loop] by blast
  with c show "(entry_path hdr, hdr) \<in> set cs" by auto
  from cb res
  show "\<exists>s1. analyzeFn (entry_path hdr) hdr (fileWithTarOpener hdr tr) (env sc) = (None, s1)"
    by simp
qed

theorem opaque_marker_does_not_suppress_later_entries_witness:
  "is_opq (entry ''var/cache/.wh..wh..opq'' TypeReg)
   \<and> walk_loop no_skip record_path
         ([] @ Next_hdr (entry ''var/cache/.wh..wh..opq'' TypeReg) small_content # [])
         (walk_init []) = (None, after_marker)
   \<and> entry_dir (entry ''var/cache/.wh..wh..opq'' TypeReg) \<in> set (opqDirs after_marker)
   \<and> (\<forall>p. \<not> shouldSkipDir no_skip p \<and> \<not> shouldSkipFile no_skip p)
   \<and> \<not> is_opq (entry ''var/cache/pkg.db'' TypeReg) \<and> \<not> is_wh (entry ''var/cache/pkg.db'' TypeReg)
   \<and> is_file_or_dir (entry ''var/cache/pkg.db'' TypeReg)
   \<and> reaches_callback no_skip (skipDirs after_marker) (entry ''var/cache/pkg.db'' TypeReg)
   \<and> record_path (entry_path (entry ''var/cache/pkg.db'' TypeReg)) (entry ''var/cache/pkg.db'' TypeReg)
         (fileWithTarOpener (entry ''var/cache/pkg.db'' TypeReg) small_content) (env after_marker)
       = (None, [''var/cache/pkg.db''])
   \<and> Walk no_skip layer_B record_path []
       = (([''var/cache/''], [], None), [''var/cache/pkg.db''],
          [(''var/cache/pkg.db'', entry ''var/cache/pkg.db'' TypeReg)])"
proof -
  let ?m = "entry ''var/cache/.wh..wh..opq'' TypeReg"
  let ?h = "entry ''var/cache/pkg.db'' TypeReg"
  have h1: "is_opq ?m" by code_simp
  have h2: "walk_loop no_skip record_path ([] @ Next_hdr ?m small_content # []) (walk_init [])
              = (None, after_marker)"
    by code_simp
  have h3: "\<forall>p. \<not> shouldSkipDir no_skip p \<and> \<not> shouldSkipFile no_skip p"
    by (simp add: no_skip_def)
  have h4: "\<not> is_opq ?h \<and> \<not> is_wh ?h \<and> is_file_or_dir ?h" by code_simp
  have h5: "record_path (entry_path ?h) ?h (fileWithTarOpener ?h small_content) (env after_marker)
              = (None, [''var/cache/pkg.db''])"
    by code_simp
  have h6: "walk_return (walk_rest no_skip record_path small_content []
              (after_marker\<lparr>env := [''var/cache/pkg.db''],
                             calls := calls after_marker @ [(entry_path ?h, ?h)]\<rparr>))
            = (([''var/cache/''], [], None), [''var/cache/pkg.db''], [(''var/cache/pkg.db'', ?h)])"
    by code_simp
  have h7: "layer_B = [] @ Next_hdr ?m small_content # [] @ Next_hdr ?h small_content # []"
    by (simp add: layer_B_def)
  note inst = opaque_marker_does_not_suppress_later_entries[OF h1 h2, of ?h small_content "[]"
      "[''var/cache/'']" "[]" "[''var/cache/pkg.db'']" "[(''var/cache/pkg.db'', ?h)]"]
  from inst have a: "entry_dir ?m \<in> set (opqDirs after_marker)" by blast
  from inst h3 h4 have b: "reaches_callback no_skip (skipDirs after_marker) ?h" by blast
  from inst b have "Walk no_skip ([] @ Next_hdr ?m small_content # [] @ Next_hdr ?h small_content # [])
        record_path [] =
      (case record_path (entry_path ?h) ?h (fileWithTarOpener ?h small_content) (env after_marker) of
         (Some e, s1) \<Rightarrow>
           (([], [], Some (Wrap ''failed to analyze file'' e)), s1,
            calls after_marker @ [(entry_path ?h, ?h)])
       | (None, s1) \<Rightarrow>
           walk_return
             (walk_rest no_skip record_path small_content []
                (after_marker\<lparr>env := s1, calls := calls after_marker @ [(entry_path ?h, ?h)]\<rparr>)))"
    by blast
  then have c: "Walk no_skip layer_B record_path []
       = (([''var/cache/''], [], None), [''var/cache/pkg.db''], [(''var/cache/pkg.db'', ?h)])"
    unfolding h5 h7[symmetric] by (simp only: h6 prod.case option.case)
  from h4 have h4a: "\<not> is_opq ?h" and h4b: "\<not> is_wh ?h" and h4c: "is_file_or_dir ?h" by simp_all
  show ?thesis
    by (intro conjI h1 h2 a h3 h4a h4b h4c b h5 c)
qed

lemma splitSep_nonempty: "splitSep p \<noteq> []"
  by (induction p) (auto split: list.splits)

lemma splitSep_snoc_sep: "splitSep (d @ ''/'') = splitSep d @ [[]]"
  by (induction d) (auto simp add: splitSep_nonempty split: list.splits)

lemma clean_elems_append:
  "clean_elems rooted out (es @ fs) = clean_elems rooted (clean_elems rooted out es) fs"
  by (induction es arbitrary: out) auto

lemma Clean_trailing_sep: "d \<noteq> [] \<Longrightarrow> Clean (d @ ''/'') = Clean d"
  by (simp add: Clean_def splitSep_snoc_sep clean_elems_append)

lemma wh_not_opq: "wh \<noteq> opq"
  by (simp add: wh_def opq_def)

text \<open>
  Claim C10, as amended. For an entry whose normalized base name is exactly \<open>.wh.\<close>, the
  loop body appends to \<open>whFiles\<close> the cleaned directory component when that component is not
  empty, and the empty string when it is empty (an entry \<open>.wh.\<close> at the top level, where the
  cleaned directory would be \<open>.\<close>); the callback is not called. The entry \<open>etc/.wh.\<close>
  gives \<open>etc\<close>.
\<close>

theorem bare_whiteout_prefix_entry:
  "entry_base hdr = wh \<Longrightarrow>
   walk_entry w analyzeFn hdr tr st =
     (None, st\<lparr>whFiles := whFiles st @ [if entry_dir hdr = [] then [] else Clean (entry_dir hdr)]\<rparr>)"
proof -
  assume a: "entry_base hdr = wh"
  then have w: "is_wh hdr"
    by (simp add: is_wh_def wh_not_opq HasPrefix_def)
  have p: "wh_path hdr = (if entry_dir hdr = [] then [] else Clean (entry_dir hdr))"
    using a by (simp add: wh_path_def TrimPrefix_def HasPrefix_def Clean_trailing_sep)
  show ?thesis by (simp only: walk_entry_wh[OF w] p)
qed

theorem bare_whiteout_prefix_entry_witness:
  "entry_base (entry ''etc/.wh.'' TypeReg) = wh
   \<and> walk_entry no_skip accept_all (entry ''etc/.wh.'' TypeReg) small_content (walk_init ())
       = (None, (walk_init ())\<lparr>whFiles := whFiles (walk_init ()) @ [''etc'']\<rparr>)"
proof -
  have h1: "entry_base (entry ''etc/.wh.'' TypeReg) = wh" by code_simp
  have h2: "(if entry_dir (entry ''etc/.wh.'' TypeReg) = [] then [] else Clean (entry_dir (entry ''etc/.wh.'' TypeReg))) = ''etc''"
    by code_simp
  from bare_whiteout_prefix_entry[OF h1, of no_skip accept_all small_content "walk_init ()"]
  show ?thesis using h1 h2 by simp
qed

theorem bare_whiteout_prefix_top_level_counterexample:
  "entry_base (entry ''.wh.'' TypeReg) = wh
   \<and> Clean (entry_dir (entry ''.wh.'' TypeReg)) = ''.''
   \<and> fst (Walk no_skip [Next_hdr (entry ''.wh.'' TypeReg) small_content] accept_all ()) = ([], [[]], None)
   \<and> fst (Walk no_skip [Next_hdr (entry ''.wh.'' TypeReg) small_content] accept_all ())
       \<noteq> ([], [Clean (entry_dir (entry ''.wh.'' TypeReg))], None)"
  by code_simp

section \<open>Properties of the opener\<close>

lemma fresh_names_head:
  "fresh_names os dir = rnd # rest \<Longrightarrow> \<not> path_exists os (temp_name dir rnd)"
  unfolding fresh_names_def by (metis hd_dropWhile list.sel(1) list.distinct(1))

lemma MkdirTemp_Inr:
  assumes "MkdirTemp dir os = (Inr d, os1)"
  shows "\<exists>rnd. d = temp_name dir rnd" and "\<not> path_exists os d"
    and "os_files os1 = os_files os" and "os_dirs os1 = d # os_dirs os"
    and "os_faults os1 = os_faults os"
  using assms fresh_names_head[of os dir]
  by (auto simp add: MkdirTemp_def split: option.splits list.splits)

lemma CreateTemp_Inr:
  assumes "CreateTemp dir os = (Inr f, os1)"
  shows "\<exists>rnd. f = temp_name dir rnd" and "\<not> path_exists os f"
    and "os_files os1 = (f, []) # os_files os" and "os_dirs os1 = os_dirs os"
    and "os_faults os1 = os_faults os"
  using assms fresh_names_head[of os dir]
  by (auto simp add: CreateTemp_def split: option.splits list.splits)

lemma Copy_None:
  assumes "Copy f rdr os = (None, rdr', os')"
  shows "failure rdr = None" and "rdr' = rdr\<lparr>pending := [], drained := Suc (drained rdr)\<rparr>"
    and "os_files os' = write_file f (pending rdr) (os_files os)" and "os_dirs os' = os_dirs os"
  using assms by (auto simp add: Copy_def Let_def split: option.splits if_splits)

lemma map_of_write_file: "map_of (write_file p data fs) p = Some data"
  by (simp add: write_file_def)

lemma temp_name_nonempty: "temp_name dir rnd \<noteq> []"
  by (simp add: temp_name_def)

lemma within_temp_name: "d \<noteq> [] \<Longrightarrow> within d (temp_name d rnd)"
  by (simp add: within_def temp_name_def HasPrefix_def)

lemma opener_call_once:
  "once c \<Longrightarrow>
   opener_call c os =
     (case err c of
        Some e \<Rightarrow> (Inl (Wrap ''failed to once do'' e), c, os)
      | None \<Rightarrow>
          if Size (fi c) \<ge> ThresholdSize then
            (case Open (tempFilePath c) os of
               Inl e \<Rightarrow> (Inl (Wrap ''failed to open the temp file'' e), c, os)
             | Inr f \<Rightarrow> (Inr (f, RemoveTempDir), c, os))
          else (Inr (NopCloser (b c), DropBuffer), c, os))"
  by (simp add: opener_call_def)

lemma opener_call_first:
  "\<not> once c \<Longrightarrow> materialize c os = (c', os') \<Longrightarrow>
   opener_call c os = opener_call (c'\<lparr>once := True\<rparr>) os'"
  by (simp add: opener_call_def)

lemma materialize_keeps:
  "materialize c os = (c', os') \<Longrightarrow> fi c' = fi c \<and> once c' = once c"
  by (auto simp add: materialize_def ReadAll_def split: if_splits prod.splits sum.splits option.splits)

lemma materialize_spooled:
  assumes big: "Size (fi c) \<ge> ThresholdSize" and e0: "err c = None"
    and m: "materialize c os = (c', os')" and ok: "err c' = None"
  shows "within (tempDirPath c') (tempFilePath c')" and "tempDirPath c' \<noteq> []"
    and "\<not> path_exists os (tempDirPath c')" and "\<not> path_exists os (tempFilePath c')"
    and "map_of (os_files os') (tempFilePath c') = Some (pending (r c))"
    and "drained (r c') = Suc (drained (r c))" and "b c' = b c"
proof -
  obtain x os1 where mk: "MkdirTemp [] os = (x, os1)" by (cases "MkdirTemp [] os")
  from big m ok mk obtain d where xd: "x = Inr d"
    by (cases x) (auto simp add: materialize_def)
  obtain y os2 where cr: "CreateTemp d os1 = (y, os2)" by (cases "CreateTemp d os1")
  from big m ok mk xd cr obtain f where yf: "y = Inr f"
    by (cases y) (auto simp add: materialize_def)
  obtain z rdr os3 where cp: "Copy f (r c) os2 = (z, rdr, os3)" by (cases "Copy f (r c) os2")
  from big m ok mk xd cr yf cp have z: "z = None"
    by (cases z) (auto simp add: materialize_def)
  from big m mk xd cr yf cp z
  have c': "c' = c\<lparr>r := rdr, tempDirPath := d, tempFilePath := f\<rparr>" and os': "os' = os3"
    by (auto simp add: materialize_def)
  note M = MkdirTemp_Inr[OF mk[unfolded xd]]
  note C = CreateTemp_Inr[OF cr[unfolded yf]]
  note P = Copy_None[OF cp[unfolded z]]
  from M(1) have dne: "d \<noteq> []" by (auto simp add: temp_name_nonempty)
  from C(1) dne show "within (tempDirPath c') (tempFilePath c')"
    by (auto simp add: c' within_temp_name)
  from dne show "tempDirPath c' \<noteq> []" by (simp add: c')
  from M(2) show "\<not> path_exists os (tempDirPath c')" by (simp add: c')
  from C(2) M(3,4) show "\<not> path_exists os (tempFilePath c')"
    by (auto simp add: c' path_exists_def)
  from P(3) show "map_of (os_files os') (tempFilePath c') = Some (pending (r c))"
    by (simp add: c' os' map_of_write_file)
  from P(2) show "drained (r c') = Suc (drained (r c))" by (simp add: c')
  show "b c' = b c" by (simp add: c')
qed

lemma materialize_in_memory:
  assumes small: "\<not> Size (fi c) \<ge> ThresholdSize" and e0: "err c = None"
    and m: "materialize c os = (c', os')" and ok: "err c' = None"
  shows "b c' = pending (r c)" and "os' = os" and "drained (r c') = Suc (drained (r c))"
  using assms
  by (auto simp add: materialize_def ReadAll_def split: option.splits)

lemma RemoveAll_removes:
  assumes "p \<noteq> []" and "RemoveAll p os = (None, os')" and "within p q"
  shows "\<not> path_exists os' q"
  using assms
  by (auto simp add: RemoveAll_def path_exists_def split: option.splits)

lemma Open_missing:
  "\<not> path_exists os p \<Longrightarrow> \<exists>e. Open p os = Inl e"
proof -
  assume "\<not> path_exists os p"
  then have "map_of (os_files os) p = None"
    by (simp add: path_exists_def map_of_eq_None_iff)
  then show ?thesis
    by (simp add: Open_def split: option.splits)
qed

lemma first_call_shape:
  assumes first: "opener_call (fileWithTarOpener info rdr) os = (res, c1, os1)"
  obtains c' where "materialize (fileWithTarOpener info rdr) os = (c', os1)"
    and "c1 = c'\<lparr>once := True\<rparr>" and "opener_call c1 os1 = (res, c1, os1)"
    and "fi c1 = info" and "once c1"
proof -
  let ?c0 = "fileWithTarOpener info rdr"
  obtain c' os' where m: "materialize ?c0 os = (c', os')" by (cases "materialize ?c0 os")
  have n: "\<not> once ?c0" by (simp add: fileWithTarOpener_def)
  have o: "once (c'\<lparr>once := True\<rparr>)" by simp
  have eq: "opener_call ?c0 os = opener_call (c'\<lparr>once := True\<rparr>) os'"
    by (rule opener_call_first[OF n m])
  have same: "snd (opener_call (c'\<lparr>once := True\<rparr>) os') = (c'\<lparr>once := True\<rparr>, os')"
    by (simp add: opener_call_once[OF o] split: option.splits sum.splits)
  from first eq same have c1: "c1 = c'\<lparr>once := True\<rparr>" and os1: "os1 = os'" by auto
  have fi: "fi c1 = info" using materialize_keeps[OF m] by (simp add: c1 fileWithTarOpener_def)
  show ?thesis
    using that[of c'] m c1 os1 first eq fi by simp
qed

lemma later_call_keeps_state:
  "once c \<Longrightarrow> snd (opener_call c os) = (c, os)"
  by (simp add: opener_call_once split: option.splits sum.splits)

text \<open>
  Claim C6. When the first call of an opener succeeds, the content of the entry has been
  read once, and no later call reads it again: a later call leaves the captured variables
  and the operating system as they are. For a size of at least \<open>ThresholdSize\<close>, the first
  call has copied the content into a temporary file that did not exist before, in a
  temporary directory that did not exist before; every call opens that file anew and
  returns it with the release function that removes the temporary directory and all that
  is in it. For a smaller size, the content is in the buffer \<open>b\<close> and the operating system
  is untouched; every call returns a reader over the same bytes, as long as no release
  function has emptied the buffer.
\<close>

theorem materialization_policy:
  assumes first: "opener_call (fileWithTarOpener info rdr) os = (Inr (h, rel), c1, os1)"
  shows "drained (r c1) = Suc (drained rdr)
       \<and> (\<forall>os'. snd (opener_call c1 os') = (c1, os'))
       \<and> (if Size info \<ge> ThresholdSize then
            h = File (tempFilePath c1) (pending rdr) \<and> rel = RemoveTempDir
            \<and> within (tempDirPath c1) (tempFilePath c1)
            \<and> \<not> path_exists os (tempDirPath c1) \<and> \<not> path_exists os (tempFilePath c1)
            \<and> map_of (os_files os1) (tempFilePath c1) = Some (pending rdr)
            \<and> (\<forall>os'. fst (opener_call c1 os') =
                   (case Open (tempFilePath c1) os' of
                      Inl e \<Rightarrow> Inl (Wrap ''failed to open the temp file'' e)
                    | Inr f \<Rightarrow> Inr (f, RemoveTempDir)))
            \<and> fst (opener_call c1 os1) = Inr (File (tempFilePath c1) (pending rdr), RemoveTempDir)
            \<and> (\<forall>os' os''. RemoveAll (tempDirPath c1) os' = (None, os'') \<longrightarrow>
                   release rel c1 os' = (None, c1, os'')
                   \<and> (\<forall>q. within (tempDirPath c1) q \<longrightarrow> \<not> path_exists os'' q))
          else
            h = NopCloser (pending rdr) \<and> rel = DropBuffer \<and> os1 = os
            \<and> (\<forall>os'. fst (opener_call c1 os') = Inr (NopCloser (pending rdr), DropBuffer)))"
proof -
  let ?c0 = "fileWithTarOpener info rdr"
  from first obtain c' where m: "materialize ?c0 os = (c', os1)"
    and c1: "c1 = c'\<lparr>once := True\<rparr>" and again: "opener_call c1 os1 = (Inr (h, rel), c1, os1)"
    and fi: "fi c1 = info" and o: "once c1"
    by (rule first_call_shape)
  have e0: "err ?c0 = None" and r0: "r ?c0 = rdr" and fi0: "fi ?c0 = info"
    by (simp_all add: fileWithTarOpener_def)
  have ok: "err c1 = None"
    using again by (simp add: opener_call_once[OF o] split: option.splits)
  then have ok': "err c' = None" by (simp add: c1)
  have keep: "\<forall>os'. snd (opener_call c1 os') = (c1, os')"
    using later_call_keeps_state[OF o] by simp
  show ?thesis
  proof (cases "Size info \<ge> ThresholdSize")
    case True
    then have big: "Size (fi ?c0) \<ge> ThresholdSize" by (simp add: fi0)
    note S = materialize_spooled[OF big e0 m ok', unfolded r0]
    have call: "\<And>os'. opener_call c1 os' =
        (case Open (tempFilePath c1) os' of
           Inl e \<Rightarrow> (Inl (Wrap ''failed to open the temp file'' e), c1, os')
         | Inr f \<Rightarrow> (Inr (f, RemoveTempDir), c1, os'))"
      using True by (simp add: opener_call_once[OF o] ok fi)
    have tf: "map_of (os_files os1) (tempFilePath c1) = Some (pending rdr)"
      using S(5) by (simp add: c1)
    from again have op: "Open (tempFilePath c1) os1 = Inr h" and rel: "rel = RemoveTempDir"
      by (auto simp add: call split: sum.splits)
    from op tf have h: "h = File (tempFilePath c1) (pending rdr)"
      by (auto simp add: Open_def split: option.splits)
    have dne: "tempDirPath c1 \<noteq> []" using S(2) by (simp add: c1)
    have rm: "\<forall>os' os''. RemoveAll (tempDirPath c1) os' = (None, os'') \<longrightarrow>
                   release rel c1 os' = (None, c1, os'')
                   \<and> (\<forall>q. within (tempDirPath c1) q \<longrightarrow> \<not> path_exists os'' q)"
      using RemoveAll_removes[OF dne] by (auto simp add: release_def rel)
    have "drained (r c1) = Suc (drained rdr)" using S(6) by (simp add: c1)
    moreover have "within (tempDirPath c1) (tempFilePath c1)" using S(1) by (simp add: c1)
    moreover have "\<not> path_exists os (tempDirPath c1)" using S(3) by (simp add: c1)
    moreover have "\<not> path_exists os (tempFilePath c1)" using S(4) by (simp add: c1)
    moreover have "\<forall>os'. fst (opener_call c1 os') =
                   (case Open (tempFilePath c1) os' of
                      Inl e \<Rightarrow> Inl (Wrap ''failed to open the temp file'' e)
                    | Inr f \<Rightarrow> Inr (f, RemoveTempDir))"
      by (simp add: call split: sum.splits)
    moreover have "fst (opener_call c1 os1) = Inr (File (tempFilePath c1) (pending rdr), RemoveTempDir)"
      using again h rel by simp
    ultimately show ?thesis
      using True keep h rel tf rm by simp
  next
    case False
    then have small: "\<not> Size (fi ?c0) \<ge> ThresholdSize" by (simp add: fi0)
    note S = materialize_in_memory[OF small e0 m ok', unfolded r0]
    have call: "\<And>os'. opener_call c1 os' = (Inr (NopCloser (b c1), DropBuffer), c1, os')"
      using False by (simp add: opener_call_once[OF o] ok fi)
    have bb: "b c1 = pending rdr" using S(1) by (simp add: c1)
    from again have "h = NopCloser (pending rdr)" and "rel = DropBuffer"
      by (auto simp add: call bb)
    moreover have "drained (r c1) = Suc (drained rdr)" using S(3) by (simp add: c1)
    moreover have "os1 = os" using S(2) by simp
    moreover have "\<forall>os'. fst (opener_call c1 os') = Inr (NopCloser (pending rdr), DropBuffer)"
      by (simp add: call bb)
    ultimately show ?thesis
      using False keep by simp
  qed
qed

text \<open>
  Claim C9, as amended. After a first call that succeeded and a release that succeeded,
  the next call of the opener returns no error for a size below \<open>ThresholdSize\<close>, with a
  reader over an empty buffer; for a size of at least \<open>ThresholdSize\<close> it returns the error
  \<open>failed to open the temp file\<close>, since the release has removed the temporary directory
  and the file in it.
\<close>

theorem opener_after_release:
  assumes first: "opener_call (fileWithTarOpener info rdr) os = (Inr (h, rel), c1, os1)"
    and released: "release rel c1 os' = (None, c2, os'')"
  shows "if Size info \<ge> ThresholdSize
         then (\<exists>e. opener_call c2 os'' = (Inl (Wrap ''failed to open the temp file'' e), c2, os''))
         else opener_call c2 os'' = (Inr (NopCloser [], DropBuffer), c2, os'')"
proof -
  let ?c0 = "fileWithTarOpener info rdr"
  from first obtain c' where m: "materialize ?c0 os = (c', os1)"
    and c1: "c1 = c'\<lparr>once := True\<rparr>" and again: "opener_call c1 os1 = (Inr (h, rel), c1, os1)"
    and fi: "fi c1 = info" and o: "once c1"
    by (rule first_call_shape)
  have e0: "err ?c0 = None" and fi0: "fi ?c0 = info"
    by (simp_all add: fileWithTarOpener_def)
  have ok: "err c1 = None"
    using again by (simp add: opener_call_once[OF o] split: option.splits)
  then have ok': "err c' = None" by (simp add: c1)
  show ?thesis
  proof (cases "Size info \<ge> ThresholdSize")
    case True
    then have big: "Size (fi ?c0) \<ge> ThresholdSize" by (simp add: fi0)
    note S = materialize_spooled[OF big e0 m ok']
    from again True have rel: "rel = RemoveTempDir"
      by (auto simp add: opener_call_once[OF o] ok fi split: sum.splits)
    from released rel have c2: "c2 = c1" and rm: "RemoveAll (tempDirPath c1) os' = (None, os'')"
      by (auto simp add: release_def split: prod.splits option.splits)
    have dne: "tempDirPath c1 \<noteq> []" using S(2) by (simp add: c1)
    have "within (tempDirPath c1) (tempFilePath c1)" using S(1) by (simp add: c1)
    from RemoveAll_removes[OF dne rm this] have "\<not> path_exists os'' (tempFilePath c1)" .
    from Open_missing[OF this] obtain e where "Open (tempFilePath c1) os'' = Inl e" by blast
    then have "opener_call c2 os'' = (Inl (Wrap ''failed to open the temp file'' e), c2, os'')"
      using True by (simp add: c2 opener_call_once[OF o] ok fi)
    with True show ?thesis by auto
  next
    case False
    from again False have rel: "rel = DropBuffer"
      by (auto simp add: opener_call_once[OF o] ok fi split: sum.splits)
    from released rel have c2: "c2 = c1\<lparr>b := []\<rparr>" and os: "os'' = os'"
      by (auto simp add: release_def)
    have "opener_call (c1\<lparr>b := []\<rparr>) os'' = (Inr (NopCloser [], DropBuffer), c1\<lparr>b := []\<rparr>, os'')"
      using False o by (simp add: opener_call_once ok fi)
    with False show ?thesis by (simp add: c2)
  qed
qed

lemma first_call_big:
  "opener_call (fileWithTarOpener big_file big_content) os_0
     = (Inr (File ''/tmp/trivy-1/trivy-2'' big_bytes, RemoveTempDir), spooled_opener, os_spooled)"
  by (simp add: opener_call_def fileWithTarOpener_def materialize_def big_file_def big_content_def
      os_0_def MkdirTemp_def CreateTemp_def Copy_def Open_def fresh_names_def temp_name_def
      path_exists_def write_file_def spooled_opener_def os_spooled_def Let_def)

lemma release_big:
  "release RemoveTempDir spooled_opener os_spooled = (None, spooled_opener, os_released)"
  by (simp add: release_def RemoveAll_def spooled_opener_def os_spooled_def os_released_def
      within_def HasPrefix_def)

lemma call_after_release_big:
  "opener_call spooled_opener os_released
     = (Inl (Wrap ''failed to open the temp file'' (Err ''open /tmp/trivy-1/trivy-2: no such file or directory'')),
        spooled_opener, os_released)"
  by (simp add: opener_call_def spooled_opener_def os_released_def big_file_def Open_def)

lemma first_call_small:
  "opener_call (fileWithTarOpener small_file small_content) os_0
     = (Inr (NopCloser ''data'', DropBuffer), buffered_opener, os_0)"
  by (simp add: opener_call_def fileWithTarOpener_def materialize_def small_file_def
      small_content_def ReadAll_def buffered_opener_def ThresholdSize_def)

lemma release_small:
  "release DropBuffer buffered_opener os_0 = (None, buffered_opener\<lparr>b := []\<rparr>, os_0)"
  by (simp add: release_def)

lemma first_call_truncated:
  "opener_call (fileWithTarOpener small_file (truncated small_file small_content)) os_0
     = (Inl (Wrap ''failed to once do'' (Wrap ''unable to read the file'' (Err ''unexpected EOF''))),
        failed_opener, os_0)"
  by (simp add: opener_call_def fileWithTarOpener_def materialize_def small_file_def
      small_content_def truncated_def ReadAll_def failed_opener_def ThresholdSize_def)

lemma RemoveAll_big:
  "RemoveAll (tempDirPath spooled_opener) os_spooled = (None, os_released)"
  by (simp add: RemoveAll_def spooled_opener_def os_spooled_def os_released_def
      within_def HasPrefix_def)

theorem materialization_policy_witness:
  "opener_call (fileWithTarOpener big_file big_content) os_0
     = (Inr (File ''/tmp/trivy-1/trivy-2'' big_bytes, RemoveTempDir), spooled_opener, os_spooled)
   \<and> Size big_file \<ge> ThresholdSize
   \<and> drained (r spooled_opener) = Suc (drained big_content)
   \<and> within (tempDirPath spooled_opener) (tempFilePath spooled_opener)
   \<and> \<not> path_exists os_0 (tempDirPath spooled_opener)
   \<and> \<not> path_exists os_0 (tempFilePath spooled_opener)
   \<and> map_of (os_files os_spooled) (tempFilePath spooled_opener) = Some big_bytes
   \<and> opener_call spooled_opener os_spooled
       = (Inr (File (tempFilePath spooled_opener) big_bytes, RemoveTempDir), spooled_opener, os_spooled)
   \<and> release RemoveTempDir spooled_opener os_spooled = (None, spooled_opener, os_released)
   \<and> \<not> path_exists os_released (tempFilePath spooled_opener)
   \<and> opener_call (fileWithTarOpener small_file small_content) os_0
       = (Inr (NopCloser ''data'', DropBuffer), buffered_opener, os_0)
   \<and> \<not> Size small_file \<ge> ThresholdSize
   \<and> drained (r buffered_opener) = Suc (drained small_content)
   \<and> (\<forall>os'. opener_call buffered_opener os'
         = (Inr (NopCloser ''data'', DropBuffer), buffered_opener, os'))"
proof -
  have big: "(Size big_file \<ge> ThresholdSize) = True" by (simp add: big_file_def)
  have small: "(Size small_file \<ge> ThresholdSize) = False"
    by (simp add: small_file_def ThresholdSize_def)
  have p1: "pending big_content = big_bytes" by (simp add: big_content_def)
  have p2: "pending small_content = ''data''" by (simp add: small_content_def)
  note spooled = materialization_policy[OF first_call_big, unfolded big if_True p1]
  note buffered = materialization_policy[OF first_call_small, unfolded small if_False p2]
  from spooled have s1: "drained (r spooled_opener) = Suc (drained big_content)"
    and s2: "\<forall>os'. snd (opener_call spooled_opener os') = (spooled_opener, os')"
    and s3: "within (tempDirPath spooled_opener) (tempFilePath spooled_opener)"
    and s4: "\<not> path_exists os_0 (tempDirPath spooled_opener)"
    and s5: "\<not> path_exists os_0 (tempFilePath spooled_opener)"
    and s6: "map_of (os_files os_spooled) (tempFilePath spooled_opener) = Some big_bytes"
    and s7: "fst (opener_call spooled_opener os_spooled)
               = Inr (File (tempFilePath spooled_opener) big_bytes, RemoveTempDir)"
    and s8: "\<forall>os' os''. RemoveAll (tempDirPath spooled_opener) os' = (None, os'') \<longrightarrow>
               release RemoveTempDir spooled_opener os' = (None, spooled_opener, os'')
               \<and> (\<forall>q. within (tempDirPath spooled_opener) q \<longrightarrow> \<not> path_exists os'' q)"
    by blast+
  from s2 s7 have again: "opener_call spooled_opener os_spooled
       = (Inr (File (tempFilePath spooled_opener) big_bytes, RemoveTempDir), spooled_opener, os_spooled)"
    by (simp add: prod_eq_iff)
  from s8 RemoveAll_big s3
  have gone: "release RemoveTempDir spooled_opener os_spooled = (None, spooled_opener, os_released)"
    "\<not> path_exists os_released (tempFilePath spooled_opener)"
    by blast+
  from buffered have b1: "drained (r buffered_opener) = Suc (drained small_content)"
    and b2: "\<forall>os'. snd (opener_call buffered_opener os') = (buffered_opener, os')"
    and b3: "\<forall>os'. fst (opener_call buffered_opener os') = Inr (NopCloser ''data'', DropBuffer)"
    by blast+
  from b2 b3 have b4: "\<forall>os'. opener_call buffered_opener os'
         = (Inr (NopCloser ''data'', DropBuffer), buffered_opener, os')"
    by (simp add: prod_eq_iff)
  show ?thesis
    unfolding big small not_False_eq_True
    by (intro conjI TrueI first_call_big first_call_small s1 s3 s4 s5 s6 again gone b1 b4)
qed

theorem opener_after_release_witness:
  "opener_call (fileWithTarOpener big_file big_content) os_0
     = (Inr (File ''/tmp/trivy-1/trivy-2'' big_bytes, RemoveTempDir), spooled_opener, os_spooled)
   \<and> release RemoveTempDir spooled_opener os_spooled = (None, spooled_opener, os_released)
   \<and> Size big_file \<ge> ThresholdSize
   \<and> (\<exists>e. opener_call spooled_opener os_released
            = (Inl (Wrap ''failed to open the temp file'' e), spooled_opener, os_released))
   \<and> opener_call (fileWithTarOpener small_file small_content) os_0
       = (Inr (NopCloser ''data'', DropBuffer), buffered_opener, os_0)
   \<and> release DropBuffer buffered_opener os_0 = (None, buffered_opener\<lparr>b := []\<rparr>, os_0)
   \<and> \<not> Size small_file \<ge> ThresholdSize
   \<and> opener_call (buffered_opener\<lparr>b := []\<rparr>) os_0
       = (Inr (NopCloser [], DropBuffer), buffered_opener\<lparr>b := []\<rparr>, os_0)"
proof -
  have big: "Size big_file \<ge> ThresholdSize" by (simp add: big_file_def)
  have small: "\<not> Size small_file \<ge> ThresholdSize" by (simp add: small_file_def ThresholdSize_def)
  from opener_after_release[OF first_call_big release_big]
       opener_after_release[OF first_call_small release_small]
  show ?thesis
    using first_call_big release_big first_call_small release_small big small
    by simp
qed

theorem reopen_after_release_counterexample:
  "Size big_file \<ge> ThresholdSize
   \<and> opener_call (fileWithTarOpener big_file big_content) os_0
       = (Inr (File ''/tmp/trivy-1/trivy-2'' big_bytes, RemoveTempDir), spooled_opener, os_spooled)
   \<and> release RemoveTempDir spooled_opener os_spooled = (None, spooled_opener, os_released)
   \<and> opener_call spooled_opener os_released
       = (Inl (Wrap ''failed to open the temp file'' (Err ''open /tmp/trivy-1/trivy-2: no such file or directory'')),
          spooled_opener, os_released)"
  using first_call_big release_big call_after_release_big
  by (simp add: big_file_def)

lemma walk_entry_content:
  assumes "\<forall>p h c c' s. f p h c s = f p h c' s"
  shows "walk_entry w f hdr tr' st = walk_entry w f hdr tr st"
proof -
  from assms have "f (entry_path hdr) hdr (fileWithTarOpener hdr tr') (env st)
      = f (entry_path hdr) hdr (fileWithTarOpener hdr tr) (env st)"
    by blast
  then show ?thesis by (simp add: walk_entry_unfold analyze_def)
qed

lemma later_calls_failed:
  "once c \<Longrightarrow> err c = Some e \<Longrightarrow>
   \<forall>x \<in> set (later_calls c os changes). x = Inl (Wrap ''failed to once do'' e)"
proof (induction changes arbitrary: os)
  case Nil
  show ?case by simp
next
  case (Cons change changes)
  have "opener_call c (change os) = (Inl (Wrap ''failed to once do'' e), c, change os)"
    using Cons.prems by (simp add: opener_call_once)
  with Cons.IH[OF Cons.prems] show ?case by simp
qed

lemma materialize_err_form:
  assumes "err c = None" and "materialize c os = (c', os')" and "err c' = Some e"
  shows "\<exists>cause. e = Wrap ''failed to create the temp dir'' cause
              \<or> e = Wrap ''failed to create the temp file'' cause
              \<or> e = Wrap ''failed to copy'' cause
              \<or> e = Wrap ''unable to read the file'' cause"
  using assms
  by (auto simp add: materialize_def split: if_splits prod.splits sum.splits option.splits)

lemma mkdir_failure_sets_err:
  "Size (fi c) \<ge> ThresholdSize \<Longrightarrow> MkdirTemp [] os = (Inl cause, osa) \<Longrightarrow>
   err (fst (materialize c os)) = Some (Wrap ''failed to create the temp dir'' cause)"
  by (simp add: materialize_def)

lemma create_failure_sets_err:
  "Size (fi c) \<ge> ThresholdSize \<Longrightarrow> MkdirTemp [] os = (Inr d, osa) \<Longrightarrow>
   CreateTemp d osa = (Inl cause, osb) \<Longrightarrow>
   err (fst (materialize c os)) = Some (Wrap ''failed to create the temp file'' cause)"
  by (simp add: materialize_def)

lemma copy_failure_sets_err:
  "Size (fi c) \<ge> ThresholdSize \<Longrightarrow> MkdirTemp [] os = (Inr d, osa) \<Longrightarrow>
   CreateTemp d osa = (Inr f, osb) \<Longrightarrow> Copy f (r c) osb = (Some cause, rdr', osc) \<Longrightarrow>
   err (fst (materialize c os)) = Some (Wrap ''failed to copy'' cause)"
  by (simp add: materialize_def)

lemma read_failure_sets_err:
  "\<not> Size (fi c) \<ge> ThresholdSize \<Longrightarrow> failure (r c) = Some cause \<Longrightarrow>
   err (fst (materialize c os)) = Some (Wrap ''unable to read the file'' cause)"
  by (simp add: materialize_def ReadAll_def)

lemma walk_entry_error_is_callback_error:
  assumes "walk_entry w f hdr tr st = (Some failed, st')"
  shows "\<exists>e s1. f (entry_path hdr) hdr (fileWithTarOpener hdr tr) (env st) = (Some e, s1)
           \<and> failed = Wrap ''failed to analyze file'' e"
  using assms
  by (auto simp add: walk_entry_unfold analyze_def split: if_splits prod.splits option.splits)

text \<open>
  Claim C7. A new opener holds no error and has materialized nothing. What the loop body
  does for an entry does not depend on the content behind the header when the callback
  does not use the opener, and the only error that the loop body returns is the callback's
  own, wrapped. In the first call of an opener, a temporary directory or a temporary file
  that cannot be created, a copy that fails and a read that fails each leave their error,
  wrapped, in \<open>err\<close>. Once \<open>err\<close> holds an error \<open>e\<close>, the call returns \<open>failed to once do\<close>
  wrapping \<open>e\<close>, and so does every later call, whatever happens to the operating system in
  between.
\<close>

theorem materialization_errors_deferred_and_sticky:
  "err (fileWithTarOpener info rdr) = None \<and> \<not> once (fileWithTarOpener info rdr)
   \<and> ((\<forall>p h c c' s. analyzeFn p h c s = analyzeFn p h c' s) \<longrightarrow>
        walk_entry w analyzeFn hdr tr' st = walk_entry w analyzeFn hdr tr st)
   \<and> (walk_entry w analyzeFn hdr tr st = (Some failed, st') \<longrightarrow>
        (\<exists>e s1. analyzeFn (entry_path hdr) hdr (fileWithTarOpener hdr tr) (env st) = (Some e, s1)
                \<and> failed = Wrap ''failed to analyze file'' e))
   \<and> (opener_call (fileWithTarOpener info rdr) os = (res, c1, os1) \<longrightarrow>
        (Size info \<ge> ThresholdSize \<and> MkdirTemp [] os = (Inl cause, osa) \<longrightarrow>
           err c1 = Some (Wrap ''failed to create the temp dir'' cause))
      \<and> (Size info \<ge> ThresholdSize \<and> MkdirTemp [] os = (Inr d, osa)
           \<and> CreateTemp d osa = (Inl cause, osb) \<longrightarrow>
           err c1 = Some (Wrap ''failed to create the temp file'' cause))
      \<and> (Size info \<ge> ThresholdSize \<and> MkdirTemp [] os = (Inr d, osa)
           \<and> CreateTemp d osa = (Inr f, osb) \<and> Copy f rdr osb = (Some cause, rdr', osc) \<longrightarrow>
           err c1 = Some (Wrap ''failed to copy'' cause))
      \<and> (\<not> Size info \<ge> ThresholdSize \<and> failure rdr = Some cause \<longrightarrow>
           err c1 = Some (Wrap ''unable to read the file'' cause))
      \<and> (err c1 = Some e \<longrightarrow>
           res = Inl (Wrap ''failed to once do'' e)
           \<and> (\<exists>cause. e = Wrap ''failed to create the temp dir'' cause
                    \<or> e = Wrap ''failed to create the temp file'' cause
                    \<or> e = Wrap ''failed to copy'' cause
                    \<or> e = Wrap ''unable to read the file'' cause)
           \<and> (\<forall>changes. \<forall>x \<in> set (later_calls c1 os1 changes).
                 x = Inl (Wrap ''failed to once do'' e))))"
proof -
  let ?c0 = "fileWithTarOpener info rdr"
  have new: "err ?c0 = None" "\<not> once ?c0" "fi ?c0 = info" "r ?c0 = rdr"
    by (simp_all add: fileWithTarOpener_def)
  have deferred: "(\<forall>p h c c' s. analyzeFn p h c s = analyzeFn p h c' s) \<longrightarrow>
        walk_entry w analyzeFn hdr tr' st = walk_entry w analyzeFn hdr tr st"
    using walk_entry_content by blast
  have delivered: "walk_entry w analyzeFn hdr tr st = (Some failed, st') \<longrightarrow>
        (\<exists>e s1. analyzeFn (entry_path hdr) hdr (fileWithTarOpener hdr tr) (env st) = (Some e, s1)
                \<and> failed = Wrap ''failed to analyze file'' e)"
    using walk_entry_error_is_callback_error by blast
  have opened: "opener_call ?c0 os = (res, c1, os1) \<longrightarrow>
        (Size info \<ge> ThresholdSize \<and> MkdirTemp [] os = (Inl cause, osa) \<longrightarrow>
           err c1 = Some (Wrap ''failed to create the temp dir'' cause))
      \<and> (Size info \<ge> ThresholdSize \<and> MkdirTemp [] os = (Inr d, osa)
           \<and> CreateTemp d osa = (Inl cause, osb) \<longrightarrow>
           err c1 = Some (Wrap ''failed to create the temp file'' cause))
      \<and> (Size info \<ge> ThresholdSize \<and> MkdirTemp [] os = (Inr d, osa)
           \<and> CreateTemp d osa = (Inr f, osb) \<and> Copy f rdr osb = (Some cause, rdr', osc) \<longrightarrow>
           err c1 = Some (Wrap ''failed to copy'' cause))
      \<and> (\<not> Size info \<ge> ThresholdSize \<and> failure rdr = Some cause \<longrightarrow>
           err c1 = Some (Wrap ''unable to read the file'' cause))
      \<and> (err c1 = Some e \<longrightarrow>
           res = Inl (Wrap ''failed to once do'' e)
           \<and> (\<exists>cause. e = Wrap ''failed to create the temp dir'' cause
                    \<or> e = Wrap ''failed to create the temp file'' cause
                    \<or> e = Wrap ''failed to copy'' cause
                    \<or> e = Wrap ''unable to read the file'' cause)
           \<and> (\<forall>changes. \<forall>x \<in> set (later_calls c1 os1 changes).
                 x = Inl (Wrap ''failed to once do'' e)))"
  proof (intro impI)
    assume first: "opener_call ?c0 os = (res, c1, os1)"
    from first obtain c' where m: "materialize ?c0 os = (c', os1)"
      and c1: "c1 = c'\<lparr>once := True\<rparr>" and again: "opener_call c1 os1 = (res, c1, os1)"
      and o: "once c1"
      by (rule first_call_shape)
    have errc: "err c1 = err (fst (materialize ?c0 os))" by (simp add: m c1)
    have f1: "Size info \<ge> ThresholdSize \<and> MkdirTemp [] os = (Inl cause, osa) \<longrightarrow>
           err c1 = Some (Wrap ''failed to create the temp dir'' cause)"
      using mkdir_failure_sets_err[of ?c0 os cause osa] by (simp add: errc new)
    have f2: "Size info \<ge> ThresholdSize \<and> MkdirTemp [] os = (Inr d, osa)
           \<and> CreateTemp d osa = (Inl cause, osb) \<longrightarrow>
           err c1 = Some (Wrap ''failed to create the temp file'' cause)"
      using create_failure_sets_err[of ?c0 os d osa cause osb] by (simp add: errc new)
    have f3: "Size info \<ge> ThresholdSize \<and> MkdirTemp [] os = (Inr d, osa)
           \<and> CreateTemp d osa = (Inr f, osb) \<and> Copy f rdr osb = (Some cause, rdr', osc) \<longrightarrow>
           err c1 = Some (Wrap ''failed to copy'' cause)"
      using copy_failure_sets_err[of ?c0 os d osa f osb cause rdr' osc] by (simp add: errc new)
    have f4: "\<not> Size info \<ge> ThresholdSize \<and> failure rdr = Some cause \<longrightarrow>
           err c1 = Some (Wrap ''unable to read the file'' cause)"
      using read_failure_sets_err[of ?c0 cause os] by (simp add: errc new)
    have f5: "err c1 = Some e \<longrightarrow>
           res = Inl (Wrap ''failed to once do'' e)
           \<and> (\<exists>cause. e = Wrap ''failed to create the temp dir'' cause
                    \<or> e = Wrap ''failed to create the temp file'' cause
                    \<or> e = Wrap ''failed to copy'' cause
                    \<or> e = Wrap ''unable to read the file'' cause)
           \<and> (\<forall>changes. \<forall>x \<in> set (later_calls c1 os1 changes).
                 x = Inl (Wrap ''failed to once do'' e))"
    proof (intro impI conjI)
      assume e: "err c1 = Some e"
      from again e show "res = Inl (Wrap ''failed to once do'' e)"
        by (simp add: opener_call_once[OF o])
      from materialize_err_form[OF new(1) m] e
      show "\<exists>cause. e = Wrap ''failed to create the temp dir'' cause
                    \<or> e = Wrap ''failed to create the temp file'' cause
                    \<or> e = Wrap ''failed to copy'' cause
                    \<or> e = Wrap ''unable to read the file'' cause"
        by (simp add: c1)
      show "\<forall>changes. \<forall>x \<in> set (later_calls c1 os1 changes). x = Inl (Wrap ''failed to once do'' e)"
        using later_calls_failed[OF o e] by blast
    qed
    from f1 f2 f3 f4 f5
    show "(Size info \<ge> ThresholdSize \<and> MkdirTemp [] os = (Inl cause, osa) \<longrightarrow>
           err c1 = Some (Wrap ''failed to create the temp dir'' cause))
      \<and> (Size info \<ge> ThresholdSize \<and> MkdirTemp [] os = (Inr d, osa)
           \<and> CreateTemp d osa = (Inl cause, osb) \<longrightarrow>
           err c1 = Some (Wrap ''failed to create the temp file'' cause))
      \<and> (Size info \<ge> ThresholdSize \<and> MkdirTemp [] os = (Inr d, osa)
           \<and> CreateTemp d osa = (Inr f, osb) \<and> Copy f rdr osb = (Some cause, rdr', osc) \<longrightarrow>
           err c1 = Some (Wrap ''failed to copy'' cause))
      \<and> (\<not> Size info \<ge> ThresholdSize \<and> failure rdr = Some cause \<longrightarrow>
           err c1 = Some (Wrap ''unable to read the file'' cause))
      \<and> (err c1 = Some e \<longrightarrow>
           res = Inl (Wrap ''failed to once do'' e)
           \<and> (\<exists>cause. e = Wrap ''failed to create the temp dir'' cause
                    \<or> e = Wrap ''failed to create the temp file'' cause
                    \<or> e = Wrap ''failed to copy'' cause
                    \<or> e = Wrap ''unable to read the file'' cause)
           \<and> (\<forall>changes. \<forall>x \<in> set (later_calls c1 os1 changes).
                 x = Inl (Wrap ''failed to once do'' e)))"
      by (intro conjI)
  qed
  from new(1,2) deferred delivered opened show ?thesis
    by (intro conjI)
qed

lemma big_bytes_nonempty: "big_bytes \<noteq> []"
  by (simp add: big_bytes_def ThresholdSize_def)

lemma pair_of_fst: "fst x = a \<Longrightarrow> x = (a, snd x)"
  by (cases x) simp

lemma triple_eta: "x = (fst x, fst (snd x), snd (snd x))"
  by simp

lemma triple_of_fst: "fst x = a \<Longrightarrow> x = (a, fst (snd x), snd (snd x))"
  by (cases x) simp

theorem materialization_errors_deferred_and_sticky_witness:
  "(\<forall>p h c c' s. accept_all p h c s = accept_all p h c' s)
   \<and> walk_entry no_skip accept_all small_file (truncated small_file small_content) (walk_init ())
       = walk_entry no_skip accept_all small_file small_content (walk_init ())
   \<and> Walk no_skip [Next_hdr small_file (truncated small_file small_content),
                     Next_hdr (entry ''etc/hostname'' TypeReg) small_content] accept_all ()
       = (([], [], Some (Wrap ''failed to extract the archive'' (Err ''unexpected EOF''))), (),
          [(''etc/os-release'', small_file)])
   \<and> Size big_file \<ge> ThresholdSize
   \<and> fst (MkdirTemp [] os_no_mkdir) = Inl (Err ''permission denied'')
   \<and> fst (opener_call (fileWithTarOpener big_file big_content) os_no_mkdir)
       = Inl (Wrap ''failed to once do'' (Wrap ''failed to create the temp dir'' (Err ''permission denied'')))
   \<and> set (later_calls (fst (snd (opener_call (fileWithTarOpener big_file big_content) os_no_mkdir)))
                       (snd (snd (opener_call (fileWithTarOpener big_file big_content) os_no_mkdir)))
                       [id, (\<lambda>os. os\<lparr>os_faults := []\<rparr>), id])
        \<subseteq> {Inl (Wrap ''failed to once do'' (Wrap ''failed to create the temp dir'' (Err ''permission denied'')))}
   \<and> fst (MkdirTemp [] os_no_create) = Inr ''/tmp/trivy-1''
   \<and> fst (CreateTemp ''/tmp/trivy-1'' (snd (MkdirTemp [] os_no_create))) = Inl (Err ''too many open files'')
   \<and> fst (opener_call (fileWithTarOpener big_file big_content) os_no_create)
       = Inl (Wrap ''failed to once do'' (Wrap ''failed to create the temp file'' (Err ''too many open files'')))
   \<and> fst (MkdirTemp [] os_no_write) = Inr ''/tmp/trivy-1''
   \<and> fst (CreateTemp ''/tmp/trivy-1'' (snd (MkdirTemp [] os_no_write))) = Inr ''/tmp/trivy-1/trivy-2''
   \<and> fst (Copy ''/tmp/trivy-1/trivy-2'' big_content
             (snd (CreateTemp ''/tmp/trivy-1'' (snd (MkdirTemp [] os_no_write)))))
       = Some (Err ''no space left on device'')
   \<and> fst (opener_call (fileWithTarOpener big_file big_content) os_no_write)
       = Inl (Wrap ''failed to once do'' (Wrap ''failed to copy'' (Err ''no space left on device'')))
   \<and> \<not> Size small_file \<ge> ThresholdSize
   \<and> failure (truncated small_file small_content) = Some (Err ''unexpected EOF'')
   \<and> fst (opener_call (fileWithTarOpener small_file (truncated small_file small_content)) os_0)
       = Inl (Wrap ''failed to once do'' (Wrap ''unable to read the file'' (Err ''unexpected EOF'')))
   \<and> set (later_calls
             (fst (snd (opener_call (fileWithTarOpener small_file (truncated small_file small_content)) os_0)))
             (snd (snd (opener_call (fileWithTarOpener small_file (truncated small_file small_content)) os_0)))
             [id, (\<lambda>os. os\<lparr>os_files := []\<rparr>), id])
        \<subseteq> {Inl (Wrap ''failed to once do'' (Wrap ''unable to read the file'' (Err ''unexpected EOF'')))}"
proof -
  let ?big = "fileWithTarOpener big_file big_content"
  let ?small = "fileWithTarOpener small_file (truncated small_file small_content)"
  have g1: "\<forall>p h c c' s. accept_all p h c s = accept_all p h c' s"
    by (simp add: accept_all_def)
  have g3: "Walk no_skip [Next_hdr small_file (truncated small_file small_content),
                     Next_hdr (entry ''etc/hostname'' TypeReg) small_content] accept_all ()
       = (([], [], Some (Wrap ''failed to extract the archive'' (Err ''unexpected EOF''))), (),
          [(''etc/os-release'', small_file)])"
    by code_simp
  have big: "Size big_file \<ge> ThresholdSize" by (simp add: big_file_def)
  have small: "\<not> Size small_file \<ge> ThresholdSize"
    by (simp add: small_file_def ThresholdSize_def)
  have cut: "failure (truncated small_file small_content) = Some (Err ''unexpected EOF'')"
    by (simp add: truncated_def)
  have m1: "fst (MkdirTemp [] os_no_mkdir) = Inl (Err ''permission denied'')"
    by (simp add: MkdirTemp_def os_no_mkdir_def os_0_def)
  have m2: "fst (MkdirTemp [] os_no_create) = Inr ''/tmp/trivy-1''"
    by (simp add: MkdirTemp_def os_no_create_def os_0_def fresh_names_def temp_name_def
        path_exists_def)
  have c2: "fst (CreateTemp ''/tmp/trivy-1'' (snd (MkdirTemp [] os_no_create)))
              = Inl (Err ''too many open files'')"
    by (simp add: MkdirTemp_def CreateTemp_def os_no_create_def os_0_def fresh_names_def
        temp_name_def path_exists_def)
  have m3: "fst (MkdirTemp [] os_no_write) = Inr ''/tmp/trivy-1''"
    by (simp add: MkdirTemp_def os_no_write_def os_0_def fresh_names_def temp_name_def
        path_exists_def)
  have c3: "fst (CreateTemp ''/tmp/trivy-1'' (snd (MkdirTemp [] os_no_write)))
              = Inr ''/tmp/trivy-1/trivy-2''"
    by (simp add: MkdirTemp_def CreateTemp_def os_no_write_def os_0_def fresh_names_def
        temp_name_def path_exists_def)
  have p3: "fst (Copy ''/tmp/trivy-1/trivy-2'' big_content
             (snd (CreateTemp ''/tmp/trivy-1'' (snd (MkdirTemp [] os_no_write)))))
              = Some (Err ''no space left on device'')"
    by (simp add: MkdirTemp_def CreateTemp_def Copy_def os_no_write_def os_0_def fresh_names_def
        temp_name_def path_exists_def big_content_def big_bytes_nonempty Let_def)
  note T = materialization_errors_deferred_and_sticky
  have g2: "walk_entry no_skip accept_all small_file (truncated small_file small_content) (walk_init ())
       = walk_entry no_skip accept_all small_file small_content (walk_init ())"
    by (rule T[THEN conjunct2, THEN conjunct2, THEN conjunct1, THEN mp, OF g1])
  note opened = T[THEN conjunct2, THEN conjunct2, THEN conjunct2, THEN conjunct2, THEN mp]
  note no_mkdir = opened[OF triple_eta[of "opener_call ?big os_no_mkdir"]]
  note e1 = no_mkdir[THEN conjunct1, THEN mp, OF conjI[OF big pair_of_fst[OF m1]]]
  note s1 = no_mkdir[THEN conjunct2, THEN conjunct2, THEN conjunct2, THEN conjunct2, THEN mp, OF e1]
  note r1 = s1[THEN conjunct1]
  have l1: "set (later_calls (fst (snd (opener_call ?big os_no_mkdir)))
                       (snd (snd (opener_call ?big os_no_mkdir)))
                       [id, (\<lambda>os. os\<lparr>os_faults := []\<rparr>), id])
        \<subseteq> {Inl (Wrap ''failed to once do'' (Wrap ''failed to create the temp dir'' (Err ''permission denied'')))}"
    using s1[THEN conjunct2, THEN conjunct2] by blast
  note no_create = opened[OF triple_eta[of "opener_call ?big os_no_create"]]
  note e2 = no_create[THEN conjunct2, THEN conjunct1, THEN mp,
      OF conjI[OF big conjI[OF pair_of_fst[OF m2] pair_of_fst[OF c2]]]]
  note r2 = no_create[THEN conjunct2, THEN conjunct2, THEN conjunct2, THEN conjunct2, THEN mp,
      OF e2, THEN conjunct1]
  note no_write = opened[OF triple_eta[of "opener_call ?big os_no_write"]]
  note e3 = no_write[THEN conjunct2, THEN conjunct2, THEN conjunct1, THEN mp,
      OF conjI[OF big conjI[OF pair_of_fst[OF m3] conjI[OF pair_of_fst[OF c3] triple_of_fst[OF p3]]]]]
  note r3 = no_write[THEN conjunct2, THEN conjunct2, THEN conjunct2, THEN conjunct2, THEN mp,
      OF e3, THEN conjunct1]
  note no_read = opened[OF triple_eta[of "opener_call ?small os_0"]]
  note e4 = no_read[THEN conjunct2, THEN conjunct2, THEN conjunct2, THEN conjunct1, THEN mp,
      OF conjI[OF small cut]]
  note s4 = no_read[THEN conjunct2, THEN conjunct2, THEN conjunct2, THEN conjunct2, THEN mp, OF e4]
  note r4 = s4[THEN conjunct1]
  have l4: "set (later_calls (fst (snd (opener_call ?small os_0)))
                       (snd (snd (opener_call ?small os_0)))
                       [id, (\<lambda>os. os\<lparr>os_files := []\<rparr>), id])
        \<subseteq> {Inl (Wrap ''failed to once do'' (Wrap ''unable to read the file'' (Err ''unexpected EOF'')))}"
    using s4[THEN conjunct2, THEN conjunct2] by blast
  show ?thesis
    by (intro conjI g1 g2 g3 big m1 r1 l1 m2 c2 r2 m3 c3 p3 r3 small cut r4 l4)
qed

section \<open>The test against the skipped directories\<close>

lemma underSkippedDir_first_match:
  "underSkippedDir p ds \<longleftrightarrow>
     (\<exists>pre d post rel. ds = pre @ d # post \<and> Rel d p = Inr rel \<and> \<not> HasPrefix rel ''../''
        \<and> (\<forall>x \<in> set pre. \<exists>rx. Rel x p = Inr rx \<and> HasPrefix rx ''../''))"
proof (induction ds)
  case Nil
  show ?case by simp
next
  case (Cons a ds)
  show ?case
  proof (cases "Rel a p")
    case (Inl e)
    have "\<not> (\<exists>pre d post rel. a # ds = pre @ d # post \<and> Rel d p = Inr rel \<and> \<not> HasPrefix rel ''../''
        \<and> (\<forall>x \<in> set pre. \<exists>rx. Rel x p = Inr rx \<and> HasPrefix rx ''../''))"
    proof
      assume "\<exists>pre d post rel. a # ds = pre @ d # post \<and> Rel d p = Inr rel \<and> \<not> HasPrefix rel ''../''
        \<and> (\<forall>x \<in> set pre. \<exists>rx. Rel x p = Inr rx \<and> HasPrefix rx ''../'')"
      then obtain pre d post rel where s: "a # ds = pre @ d # post" "Rel d p = Inr rel"
        "\<forall>x \<in> set pre. \<exists>rx. Rel x p = Inr rx \<and> HasPrefix rx ''../''" by blast
      show False
      proof (cases pre)
        case Nil
        with s Inl show False by simp
      next
        case (Cons y ys)
        with s have "a \<in> set pre" by simp
        with s(3) Inl show False by auto
      qed
    qed
    with Inl show ?thesis by simp
  next
    case (Inr rel)
    show ?thesis
    proof (cases "HasPrefix rel ''../''")
      case False
      have "a # ds = [] @ a # ds" by simp
      with Inr False have "\<exists>pre d post rel. a # ds = pre @ d # post \<and> Rel d p = Inr rel \<and> \<not> HasPrefix rel ''../''
        \<and> (\<forall>x \<in> set pre. \<exists>rx. Rel x p = Inr rx \<and> HasPrefix rx ''../'')"
        by (metis empty_iff list.set(1))
      with Inr False show ?thesis by simp
    next
      case True
      have "(\<exists>pre d post rel. a # ds = pre @ d # post \<and> Rel d p = Inr rel \<and> \<not> HasPrefix rel ''../''
               \<and> (\<forall>x \<in> set pre. \<exists>rx. Rel x p = Inr rx \<and> HasPrefix rx ''../''))
          \<longleftrightarrow> (\<exists>pre d post rel. ds = pre @ d # post \<and> Rel d p = Inr rel \<and> \<not> HasPrefix rel ''../''
               \<and> (\<forall>x \<in> set pre. \<exists>rx. Rel x p = Inr rx \<and> HasPrefix rx ''../''))"
        (is "?L \<longleftrightarrow> ?R")
      proof
        assume ?L
        then obtain pre d post rel' where s: "a # ds = pre @ d # post" "Rel d p = Inr rel'"
          "\<not> HasPrefix rel' ''../''"
          "\<forall>x \<in> set pre. \<exists>rx. Rel x p = Inr rx \<and> HasPrefix rx ''../''" by blast
        show ?R
        proof (cases pre)
          case Nil
          with s Inr True show ?thesis by simp
        next
          case (Cons y ys)
          with s have "ds = ys @ d # post" and "\<forall>x \<in> set ys. \<exists>rx. Rel x p = Inr rx \<and> HasPrefix rx ''../''"
            by simp_all
          with s(2,3) show ?thesis by blast
        qed
      next
        assume ?R
        then obtain pre d post rel' where s: "ds = pre @ d # post" "Rel d p = Inr rel'"
          "\<not> HasPrefix rel' ''../''"
          "\<forall>x \<in> set pre. \<exists>rx. Rel x p = Inr rx \<and> HasPrefix rx ''../''" by blast
        then have "a # ds = (a # pre) @ d # post"
          and "\<forall>x \<in> set (a # pre). \<exists>rx. Rel x p = Inr rx \<and> HasPrefix rx ''../''"
          using Inr True by simp_all
        with s(2,3) show ?L by blast
      qed
      with Cons.IH Inr True show ?thesis by simp
    qed
  qed
qed

lemma Walk_never_delivers_under_skipped:
  "walk_entry w f hdr tr st = (res, st') \<Longrightarrow> underSkippedDir (entry_path hdr) (skipDirs st) \<Longrightarrow>
   calls st' = calls st \<and> env st' = env st \<and> res = None"
  by (auto simp add: walk_entry_unfold analyze_def split: if_splits)

text \<open>
  Claim C5, at the input where the code departs from it. The relative path from
  \<open>../vendor\<close> to \<open>node_modules/pkg/index.js\<close> cannot be computed, and \<open>underSkippedDir\<close>
  returns false at once, although the path lies under the second recorded directory
  \<open>node_modules\<close>; with the two directories in the other order it returns true. In a walk
  that has recorded the two directories in the first order, the file is delivered to the
  callback.
\<close>

theorem underSkippedDir_stops_at_first_failure:
  "Rel ''../vendor'' ''node_modules/pkg/index.js''
     = Inl (Err ''Rel: can't make node_modules/pkg/index.js relative to ../vendor'')
   \<and> Rel ''node_modules'' ''node_modules/pkg/index.js'' = Inr ''pkg/index.js''
   \<and> \<not> HasPrefix ''pkg/index.js'' ''../''
   \<and> underSkippedDir ''node_modules/pkg/index.js'' [''../vendor'', ''node_modules''] = False
   \<and> underSkippedDir ''node_modules/pkg/index.js'' [''node_modules'', ''../vendor''] = True
   \<and> walk_loop skip_two accept_all (take 2 layer_outside) (walk_init ())
       = (None, (walk_init ())\<lparr>skipDirs := [''../vendor'', ''node_modules'']\<rparr>)
   \<and> Walk skip_two layer_outside accept_all ()
       = (([], [], None), (),
          [(''node_modules/pkg/index.js'', entry ''node_modules/pkg/index.js'' TypeReg)])"
  by code_simp

end
